theory Spec2Isabelle
  imports Complex_Main "HOL-Library.Word"
begin

unbundle bit_operations_syntax

section \<open>C values\<close>

text \<open>
  The daemon is C code for Linux and the BSDs on x86, where \<open>char\<close> is a signed byte,
  \<open>int\<close> has 32 bits and \<open>size_t\<close> 64. A \<open>char\<close> of the program is a HOL \<^typ>\<open>char\<close> (a byte); \<open>cval\<close>
  is its value in an arithmetic expression. A \<open>double\<close> is a \<^typ>\<open>real\<close>: the rounding
  of IEEE arithmetic is not modelled.
\<close>

definition cval :: "char \<Rightarrow> int" where
  "cval c = (if of_char c < (128 :: int) then of_char c else of_char c - 256)"

definition int32 :: "int \<Rightarrow> int" where
  \<comment> \<open>the value an \<open>int\<close> holds after an operation whose result is \<open>k\<close>: two's complement, 32 bits\<close>
  "int32 k = signed_take_bit 31 k"

definition c_div :: "int \<Rightarrow> int \<Rightarrow> int" where
  \<comment> \<open>\<open>a / b\<close> on \<open>int\<close>: the quotient truncated towards zero\<close>
  "c_div a b = (if (a < 0) = (b < 0) then \<bar>a\<bar> div \<bar>b\<bar> else - (\<bar>a\<bar> div \<bar>b\<bar>))"

definition c_mod :: "int \<Rightarrow> int \<Rightarrow> int" where
  \<comment> \<open>\<open>a % b\<close> on \<open>int\<close>\<close>
  "c_mod a b = a - b * c_div a b"

definition c_int :: "real \<Rightarrow> int" where
  \<comment> \<open>\<open>(int)x\<close>: the fraction is discarded\<close>
  "c_int x = (if x < 0 then \<lceil>x\<rceil> else \<lfloor>x\<rfloor>)"

definition c_char :: "int \<Rightarrow> char" where
  \<comment> \<open>an \<open>int\<close> stored into a \<open>char\<close>\<close>
  "c_char k = char_of k"

definition c_str :: "char list \<Rightarrow> nat \<Rightarrow> string" where
  \<comment> \<open>the string a \<open>char *\<close> points to: the bytes of \<open>mem\<close> from \<open>off\<close> up to the first NUL\<close>
  "c_str mem off = takeWhile (\<lambda>c. c \<noteq> CHR 0x00) (drop off mem)"

definition strncmp_ne :: "string \<Rightarrow> string \<Rightarrow> nat \<Rightarrow> bool" where
  \<comment> \<open>\<open>strncmp(s1, s2, n) != 0\<close>\<close>
  "strncmp_ne s1 s2 n = (take n s1 \<noteq> take n s2)"

definition size_t :: "int \<Rightarrow> int" where
  \<comment> \<open>the value a \<open>size_t\<close> of 64 bits holds after a signed result \<open>k\<close> is stored into it\<close>
  "size_t k = k mod 2 ^ 64"

text \<open>
  Where the program leaves defined behaviour its run ends in a fault: a read of an array
  element that was never written, a store outside the allocated object.
\<close>

datatype fault = Uninitialised_read | Out_of_bounds_store

section \<open>The NMEA decoder\<close>

definition NMEAMAX :: nat where
  "NMEAMAX = 82"

definition MAXFLDS :: nat where
  "MAXFLDS = 32"

definition KNOTTOMS :: real where
  "KNOTTOMS = 0.514444"

record tm =
  tm_sec :: int
  tm_min :: int
  tm_hour :: int
  tm_mday :: int
  tm_mon :: int
  tm_year :: int

text \<open>
  \<open>struct nmea\<close>. \<open>cbuf\<close> is the receive buffer of \<open>NMEAMAX\<close> bytes and \<open>locator\<close> the array
  of \<open>LOCMAX + 1\<close> bytes; \<open>pos\<close> is never negative, so it is a \<^typ>\<open>nat\<close>. What the
  decoder prints when \<open>verbose\<close> or \<open>NMEA_DEBUG\<close> is set is left out.
\<close>

record nmea =
  cbuf :: "char list"
  tm :: tm
  status :: int
  latitude :: real
  longitude :: real
  altitude :: real
  speed :: real
  sync :: int
  pos :: nat
  mode :: char
  locator :: "char list"

text \<open>
  The fix state: every member of \<open>struct nmea\<close> but the receive buffer and the two members
  that drive it (\<open>sync\<close>, \<open>pos\<close>).
\<close>

definition fix_state :: "nmea \<Rightarrow> tm \<times> int \<times> real \<times> real \<times> real \<times> real \<times> char \<times> char list" where
  "fix_state np =
     (tm np, status np, latitude np, longitude np, altitude np, speed np, mode np, locator np)"

subsection \<open>Maidenhead locator\<close>

definition nmea_locator :: "nmea \<Rightarrow> int \<times> nmea" where
  "nmea_locator np =
     (if longitude np > 180 \<or> longitude np < - 180 \<or> latitude np > 90 \<or> latitude np < - 90
      then (- 1, np)
      else
        let lon = longitude np + 180;
            lat = latitude np + 90
        in (0, np\<lparr>locator :=
              [c_char (c_int (real_of_int (cval CHR ''A'') + lon / 20)),
               c_char (c_int (real_of_int (cval CHR ''A'') + lat / 10)),
               c_char (cval CHR ''0'' + c_div (c_mod (c_int lon) 20) 2),
               c_char (cval CHR ''0'' + c_mod (c_int lat) 10),
               c_char (c_int (real_of_int (cval CHR ''A'')
                  + (lon - real_of_int (c_div (c_int lon) 2 * 2)) * 12)),
               c_char (c_int (real_of_int (cval CHR ''A'')
                  + (lat - real_of_int (c_int lat)) * 24)),
               CHR 0x00]\<rparr>))"

subsection \<open>Longitude and latitude conversion\<close>

fun nmea_digits :: "real \<Rightarrow> string \<Rightarrow> real" where
  \<comment> \<open>the loop body \<open>acc = acc * 10 + (*src++ - '0')\<close>, run over the bytes given\<close>
  "nmea_digits acc [] = acc"
| "nmea_digits acc (c # cs) = nmea_digits (acc * 10 + real_of_int (cval c - cval CHR ''0'')) cs"

text \<open>
  \<open>nmea_degrees(dst, src, neg)\<close> on the string \<open>src\<close> points to; \<open>None\<close> is the return of
  \<open>-1\<close>, which leaves \<open>*dst\<close> alone, \<open>Some d\<close> the return of 0 after \<open>*dst = d\<close>.
  After the leading zeroes, \<open>ppos\<close> is the index of the decimal point and \<open>p\<close> what follows
  it. The first loop reads the degrees from all but the last two bytes before the point,
  the second the minutes from those two, the third up to four more bytes after the point.
\<close>

definition nmea_degrees :: "string \<Rightarrow> bool \<Rightarrow> real option" where
  "nmea_degrees s neg =
     (let src = dropWhile (\<lambda>c. c = CHR ''0'') s;
          ppos = length (takeWhile (\<lambda>c. c \<noteq> CHR ''.'') src);
          p = drop (ppos + 1) src
      in if p = [] then None
         else
           let deg = nmea_digits 0 (take (ppos - 2) src);
               min1 = nmea_digits 0 (drop (ppos - 2) (take ppos src));
               min2 = nmea_digits min1 (take 4 p);
               deg' = deg + min2 / 600000
           in Some (if neg then - deg' else deg'))"

subsection \<open>Date and time conversion\<close>

definition is_digit :: "char \<Rightarrow> bool" where
  "is_digit c = (cval CHR ''0'' \<le> cval c \<and> cval c \<le> cval CHR ''9'')"

definition nmea_date :: "string \<Rightarrow> tm \<Rightarrow> int \<times> tm" where
  "nmea_date s t =
     (let n = length (takeWhile is_digit (take 6 s)) in
      if n \<noteq> 6 \<or> drop 6 s \<noteq> [] then (- 1, t)
      else (0, t\<lparr>tm_year := 100 + (cval (s ! 4) - cval CHR ''0'') * 10 + (cval (s ! 5) - cval CHR ''0''),
                 tm_mon := (cval (s ! 2) - cval CHR ''0'') * 10 + (cval (s ! 3) - cval CHR ''0''),
                 tm_mday := (cval (s ! 0) - cval CHR ''0'') * 10 + (cval (s ! 1) - cval CHR ''0'')\<rparr>))"

text \<open>
  \<open>nmea_time(s, tm)\<close> reads the six bytes at \<open>s\<close> whatever they are, so it takes the buffer
  and the offset of \<open>s\<close> in it rather than a string.
\<close>

definition nmea_time :: "char list \<Rightarrow> nat \<Rightarrow> tm \<Rightarrow> int \<times> tm" where
  "nmea_time mem s t =
     (0, t\<lparr>tm_hour := (cval (mem ! s) - cval CHR ''0'') * 10 + (cval (mem ! (s + 1)) - cval CHR ''0''),
            tm_min := (cval (mem ! (s + 2)) - cval CHR ''0'') * 10 + (cval (mem ! (s + 3)) - cval CHR ''0''),
            tm_sec := (cval (mem ! (s + 4)) - cval CHR ''0'') * 10 + (cval (mem ! (s + 5)) - cval CHR ''0'')\<rparr>)"

subsection \<open>Sentences\<close>

text \<open>
  \<open>fld\<close> holds the offset in \<open>cbuf\<close> of each field; its length is \<open>fldcnt\<close>. The C array
  has \<open>MAXFLDS\<close> entries of which only the first \<open>fldcnt\<close> are ever written, so reading
  \<open>fld[12]\<close> of a sentence of twelve fields is the fault \<open>Uninitialised_read\<close>.
  \<open>atof\<close> is the C library's.
\<close>

definition nmea_gprmc :: "(string \<Rightarrow> real) \<Rightarrow> nmea \<Rightarrow> nat list \<Rightarrow> fault + nmea" where
  "nmea_gprmc atof np fld =
     (let fldcnt = length fld; mem = cbuf np in
      if fldcnt < 12 \<or> fldcnt > 14 then Inr np
      else
        let (rt, tm1) = nmea_time mem (fld ! 1) (tm np); np1 = np\<lparr>tm := tm1\<rparr> in
        if rt \<noteq> 0 then Inr np1
        else
          let (rd, tm2) = nmea_date (c_str mem (fld ! 9)) (tm np1); np2 = np1\<lparr>tm := tm2\<rparr> in
          if rd \<noteq> 0 then Inr np2
          else if fldcnt < 13 then Inl Uninitialised_read
          else
            let np3 = (if mem ! (fld ! 12) \<noteq> mode np2 then np2\<lparr>mode := mem ! (fld ! 12)\<rparr> else np2);
                np4 = (if mem ! (fld ! 2) = CHR ''A'' \<or> mem ! (fld ! 2) = CHR ''D'' then np3\<lparr>status := 1\<rparr>
                       else if mem ! (fld ! 2) = CHR ''V'' then np3\<lparr>status := 0\<rparr>
                       else np3);
                np5 = (case nmea_degrees (c_str mem (fld ! 3)) (mem ! (fld ! 4) = CHR ''S'') of
                         None \<Rightarrow> np4 | Some d \<Rightarrow> np4\<lparr>latitude := d\<rparr>);
                np6 = (case nmea_degrees (c_str mem (fld ! 5)) (mem ! (fld ! 6) = CHR ''W'') of
                         None \<Rightarrow> np5 | Some d \<Rightarrow> np5\<lparr>longitude := d\<rparr>)
            in Inr (np6\<lparr>speed := atof (c_str mem (fld ! 7)) * KNOTTOMS\<rparr>))"

definition nmea_decode_gga :: "(string \<Rightarrow> real) \<Rightarrow> nmea \<Rightarrow> nat list \<Rightarrow> nmea" where
  "nmea_decode_gga atof np fld =
     (if length fld \<noteq> 15 then np
      else np\<lparr>altitude := atof (c_str (cbuf np) (fld ! 9))\<rparr>)"

text \<open>
  The loop of \<open>nmea_scan\<close> that splits the buffer into fields and computes the checksum,
  from index \<open>n\<close>: \<open>Too_many_fields\<close> is its \<open>return\<close>, \<open>Fields cb fld cksum cs\<close> its end with
  the buffer, the fields, the checksum and \<open>cs\<close> (\<open>None\<close> for \<open>NULL\<close>).
\<close>

datatype scanned = Too_many_fields "char list" | Fields "char list" "nat list" int "nat option"

function nmea_scan_loop :: "char list \<Rightarrow> nat \<Rightarrow> nat \<Rightarrow> nat list \<Rightarrow> int \<Rightarrow> scanned" where
  "nmea_scan_loop cb n p fld cksum =
     (if n < p then
        (if cb ! n = CHR ''*'' then Fields (cb[n := CHR 0x00]) fld cksum (Some (n + 1))
         else if cb ! n = CHR '','' then
           (if length fld < MAXFLDS
            then nmea_scan_loop (cb[n := CHR 0x00]) (n + 1) p (fld @ [n + 1]) (cksum XOR cval (cb ! n))
            else Too_many_fields cb)
         else nmea_scan_loop cb (n + 1) p fld (cksum XOR cval (cb ! n)))
      else Fields cb fld cksum None)"
  by pat_completeness auto
termination
  by (relation "measure (\<lambda>(cb, n, p, fld, cksum). p - n)") auto

declare nmea_scan_loop.simps [simp del]

text \<open>
  The loop that reads the checksum of the message from the string at \<open>cs\<close>: \<open>None\<close> is the
  \<open>return\<close> at a byte that is no digit and no capital A to F.
\<close>

fun nmea_msgcksum :: "int \<Rightarrow> string \<Rightarrow> int option" where
  "nmea_msgcksum m [] = Some m"
| "nmea_msgcksum m (c # cs) =
     (if is_digit c \<or> (cval CHR ''A'' \<le> cval c \<and> cval c \<le> cval CHR ''F'') then
        let m1 = (if m \<noteq> 0 then int32 (m * 16) else m);
            m2 = (if is_digit c then int32 (m1 + (cval c - cval CHR ''0''))
                  else int32 (m1 + (10 + cval c - cval CHR ''A'')))
        in nmea_msgcksum m2 cs
      else None)"

definition nmea_scan :: "(string \<Rightarrow> real) \<Rightarrow> nmea \<Rightarrow> fault + nmea" where
  "nmea_scan atof np =
     (case nmea_scan_loop (cbuf np) 0 (pos np) [0] 0 of
        Too_many_fields cb \<Rightarrow> Inr (np\<lparr>cbuf := cb\<rparr>)
      | Fields cb fld cksum cs \<Rightarrow>
          let np1 = np\<lparr>cbuf := cb\<rparr>;
              fld0 = c_str cb (fld ! 0)
          in
          if strncmp_ne fld0 ''BD'' 2 \<and> strncmp_ne fld0 ''GA'' 2 \<and> strncmp_ne fld0 ''GL'' 2
             \<and> strncmp_ne fld0 ''GN'' 2 \<and> strncmp_ne fld0 ''GP'' 2
          then Inr np1
          else if strncmp_ne (drop 2 fld0) ''RMC'' 3 \<and> strncmp_ne (drop 2 fld0) ''GGA'' 3
          then Inr np1
          else if (case cs of None \<Rightarrow> False
                   | Some off \<Rightarrow> nmea_msgcksum 0 (c_str cb off) \<noteq> Some cksum)
          then Inr np1
          else
            (case (if \<not> strncmp_ne (drop 2 fld0) ''RMC'' 3 then nmea_gprmc atof np1 fld else Inr np1) of
               Inl f \<Rightarrow> Inl f
             | Inr np2 \<Rightarrow>
                 let np3 = (if \<not> strncmp_ne (drop 2 fld0) ''GGA'' 3 then nmea_decode_gga atof np2 fld
                            else np2)
                 in Inr (snd (nmea_locator np3))))"

text \<open>Collect one byte of a sentence from the device.\<close>

definition nmea_input :: "(string \<Rightarrow> real) \<Rightarrow> char \<Rightarrow> nmea \<Rightarrow> fault + nmea" where
  "nmea_input atof c np =
     (if c = CHR ''$'' then Inr (np\<lparr>sync := 0, pos := 0\<rparr>)
      else if c = CHR 0x0D \<or> c = CHR 0x0A then
        (if sync np = 0 then
           (case nmea_scan atof (np\<lparr>cbuf := (cbuf np)[pos np := CHR 0x00]\<rparr>) of
              Inl f \<Rightarrow> Inl f
            | Inr np' \<Rightarrow> Inr (np'\<lparr>sync := 1\<rparr>))
         else Inr np)
      else if sync np = 0 \<and> pos np < NMEAMAX - 1 then
        Inr (np\<lparr>cbuf := (cbuf np)[pos np := c], pos := pos np + 1\<rparr>)
      else Inr np)"

section \<open>Events\<close>

text \<open>
  What a thread does to the world around it, in the order it does it: the calls of the
  system and of the libraries that the properties are about, each with the arguments that
  matter. A message is its format string and the arguments the program supplies;
  \<open>Arg_errno\<close> stands for \<open>strerror(errno)\<close> and \<open>gai_strerror(err)\<close>. Memory is taken
  to be available: no \<open>malloc\<close> fails.
\<close>

datatype arg = Arg_s string | Arg_d int | Arg_errno

record websocket =
  socket :: int
  ssl :: "nat option"
  ctx :: "nat option"

datatype event =
    Printf string "arg list"
  | Syslog string "arg list"
  | Send int string
  | SSL_write nat string
  | Close int
  | Select "int list"
  | Accept int
  | Pthread_create websocket
  | Free websocket
  | Closelog
  | Exit int
  | Store_trx_control_running int
  | Pthread_detach
  | Open_rdwr string
  | Tcsetattr_raw int
  | Stat string
  | LuaL_dofile string
  | Lua_close
  | Sleep nat

definition NL :: string where
  "NL = [CHR 0x0A]"

definition CRLF :: string where
  "CRLF = [CHR 0x0D, CHR 0x0A]"

section \<open>The WebSocket listener\<close>

subsection \<open>Handshake\<close>

text \<open>
  \<open>websocket.h\<close> and the library behind it are not part of the sources at hand: the frame
  types and \<open>struct handshake\<close> are declared as the code uses them, and the two library
  functions and the two strings of the header are the members of \<open>websocket_h\<close>.
  \<open>wsParseHandshake\<close> yields the frame type and the handshake it filled in;
  \<open>wsGetHandshakeAnswer\<close> yields the answer it wrote into the buffer.
\<close>

datatype wsFrameType =
    WS_EMPTY_FRAME | WS_ERROR_FRAME | WS_INCOMPLETE_FRAME | WS_TEXT_FRAME | WS_BINARY_FRAME
  | WS_PING_FRAME | WS_PONG_FRAME | WS_OPENING_FRAME | WS_CLOSING_FRAME

record handshake =
  host :: string
  origin :: string
  key :: string
  resource :: string

record websocket_h =
  wsParseHandshake :: "string \<Rightarrow> wsFrameType \<times> handshake"
  wsGetHandshakeAnswer :: "handshake \<Rightarrow> string"
  versionField :: string
  version :: string

definition transmit :: "websocket \<Rightarrow> string \<Rightarrow> event" where
  \<comment> \<open>\<open>if (websock->ssl) SSL_write(websock->ssl, buf, nread); else send(websock->socket, buf, nread, 0);\<close>\<close>
  "transmit websock buf =
     (case ssl websock of Some s \<Rightarrow> SSL_write s buf | None \<Rightarrow> Send (socket websock) buf)"

definition BUFSIZE :: int where
  "BUFSIZE = 65535"

text \<open>
  The rest of \<open>websocket_handshake\<close> once the request is in the buffer: \<open>received\<close> are
  the \<open>nread\<close> bytes that were read. The answer the library writes is taken to be shorter
  than the buffer.
\<close>

definition websocket_handshake_reply ::
  "websocket_h \<Rightarrow> websocket \<Rightarrow> string \<Rightarrow> string \<Rightarrow> int \<times> event list" where
  "websocket_handshake_reply lib websock handshake received =
     (let (frame, hs) = wsParseHandshake lib received;
          check = Printf (''check handshake '' @ [CHR 0x27] @ ''%s'' @ [CHR 0x27] @ NL) [Arg_s handshake]
      in
      if frame = WS_OPENING_FRAME then
        (if resource hs = handshake then
           let buf = wsGetHandshakeAnswer lib hs in
           (0, [check,
                Printf (''got opening frame'' @ NL) [],
                Printf (''get handshake answer'' @ NL) [],
                Printf (''send reply of %d bytes'' @ NL) [Arg_d (int (length buf))],
                Send (socket websock) buf,
                Printf (''sent reply'' @ NL) []])
         else
           (- 1, [check,
                  Printf (''got opening frame'' @ NL) [],
                  Printf (''404 not found'' @ NL) [],
                  transmit websock (''HTTP/1.1 404 Not Found'' @ CRLF @ CRLF)]))
      else
        (- 1, [check,
               Printf (''400 bad request'' @ NL) [],
               transmit websock
                 (''HTTP/1.1 400 Bad Request'' @ CRLF @ versionField lib @ version lib @ CRLF @ CRLF)]))"

text \<open>
  \<open>websocket_handshake(websock, handshake)\<close>: the value returned and the events, or the
  fault. \<open>read_r\<close> is what \<open>recv\<close> or \<open>SSL_read\<close> returns, the number of bytes read or
  \<open>-1\<close>, and \<open>data\<close> what the peer has sent. The result goes into \<open>size_t nread\<close>
  unchecked, and \<open>buf[nread] = '\0'\<close> is the first use of it: the buffer has the elements
  0 to \<open>BUFSIZE - 1\<close>.
\<close>

definition websocket_handshake ::
  "websocket_h \<Rightarrow> websocket \<Rightarrow> string \<Rightarrow> int \<Rightarrow> string \<Rightarrow> fault + int \<times> event list" where
  "websocket_handshake lib websock handshake read_r data =
     (let nread = size_t read_r in
      if BUFSIZE \<le> nread then Inl Out_of_bounds_store
      else Inr (websocket_handshake_reply lib websock handshake (take (nat nread) data)))"

subsection \<open>Listening sockets\<close>

definition MAXLISTEN :: nat where
  "MAXLISTEN = 16"

text \<open>
  One \<open>struct addrinfo\<close> of the list \<open>getaddrinfo\<close> returned, with what each system call on
  it returns: \<open>socket\<close> a descriptor or \<open>-1\<close>, the others 0 or an error.
\<close>

record candidate =
  socket_r :: int
  fcntl_r :: int
  setsockopt_r :: int
  bind_r :: int
  listen_r :: int

definition emit :: "event list \<Rightarrow> 'a \<times> event list \<Rightarrow> 'a \<times> event list" where
  "emit evs r = (fst r, evs @ snd r)"

text \<open>The loop over the candidates, from \<open>res\<close> and \<open>i\<close>: the array \<open>listen_fd\<close> at its end.\<close>

fun listen_setup :: "candidate list \<Rightarrow> nat \<Rightarrow> int list \<Rightarrow> int list \<times> event list" where
  "listen_setup [] i listen_fd = (listen_fd, [])"
| "listen_setup (res # rest) i listen_fd =
     (if i < MAXLISTEN then
        let listen_fd' = listen_fd[i := socket_r res] in
        if socket_r res < 0 then listen_setup rest i listen_fd'
        else if fcntl_r res \<noteq> 0 then
          emit [Syslog ''fcntl: %s'' [Arg_errno], Close (socket_r res)] (listen_setup rest i listen_fd')
        else if setsockopt_r res \<noteq> 0 then
          emit [Syslog ''setsockopt: %s'' [Arg_errno], Close (socket_r res)] (listen_setup rest i listen_fd')
        else if bind_r res \<noteq> 0 then
          emit [Syslog ''bind: %s'' [Arg_errno], Close (socket_r res)] (listen_setup rest i listen_fd')
        else if listen_r res \<noteq> 0 then
          emit [Syslog ''listen: %s'' [Arg_errno], Close (socket_r res)] (listen_setup rest i listen_fd')
        else listen_setup rest (i + 1) listen_fd'
      else (listen_fd, []))"

subsection \<open>Accepting connections\<close>

text \<open>
  A connection as \<open>accept\<close> returns it: the descriptor (or \<open>-1\<close>), what \<open>getnameinfo\<close>
  returns and writes into \<open>hbuf\<close>, what \<open>recv\<close> returns when the handshake reads the
  request, and the bytes the peer has sent by then.
\<close>

record connection =
  client_fd :: int
  getnameinfo_r :: int
  hbuf :: string
  recv_r :: int
  request :: string

text \<open>
  One round of the loop, as the system decides it: what \<open>select\<close> returns, whether
  \<open>errno\<close> is \<open>EINTR\<close>, the descriptors set in \<open>readfds\<close> afterwards, and the connection
  waiting on each listening descriptor.
\<close>

record round =
  select_r :: int
  eintr :: bool
  readfds :: "int list"
  accepts :: "(int \<times> connection) list"

record websocket_listener_t =
  bind_addr :: string
  listen_port :: string
  handshake_path :: string

text \<open>
  The inner loop over \<open>listen_fd\<close>, from the entries still to visit: the events, and the
  fault if the handshake of a connection ends in one. A failed \<open>accept\<close> leaves the loop.
\<close>

fun accept_each ::
  "websocket_h \<Rightarrow> bool \<Rightarrow> websocket_listener_t \<Rightarrow> round \<Rightarrow> int list
     \<Rightarrow> fault option \<times> event list" where
  "accept_each lib log_connections t rnd [] = (None, [])"
| "accept_each lib log_connections t rnd (lfd # rest) =
     (if lfd = - 1 \<or> lfd \<notin> set (readfds rnd) then accept_each lib log_connections t rnd rest
      else
        (case map_of (accepts rnd) lfd of
           None \<Rightarrow> (None, [Accept lfd, Syslog ''accept: %s'' [Arg_errno]])
         | Some c \<Rightarrow>
             if client_fd c < 0 then (None, [Accept lfd, Syslog ''accept: %s'' [Arg_errno]])
             else
               let w = \<lparr>socket = client_fd c, ssl = None, ctx = None\<rparr>;
                   accepted =
                     [Accept lfd]
                     @ (if getnameinfo_r c \<noteq> 0 then [Syslog ''getnameinfo: %s'' [Arg_errno]] else [])
                     @ (if log_connections
                        then [Syslog ''websocket connection from %s'' [Arg_s (hbuf c)]] else [])
               in
               (case websocket_handshake lib w (handshake_path t) (recv_r c) (request c) of
                  Inl f \<Rightarrow> (Some f, accepted)
                | Inr (rv, evs) \<Rightarrow>
                    emit (accepted @ evs
                          @ (if rv = 0
                             then [Printf (''websocket-listener: create handler'' @ NL) [],
                                   Pthread_create w]
                             else [Printf (''websocket-listener: handshake'' @ NL) [], Free w]))
                      (accept_each lib log_connections t rnd rest))))"

text \<open>
  The loop \<open>while (1)\<close> runs for as long as the system answers: the rounds are its
  answers, one for each call of \<open>select\<close>. The listener is \<open>Polling\<close> when they are used
  up, has \<open>Returned\<close> after the \<open>break\<close>, has \<open>Exited\<close> after \<open>exit(1)\<close>, and is
  \<open>Faulted\<close> when a handshake has left defined behaviour.
\<close>

datatype listener_state = Polling | Returned | Exited | Faulted fault

fun accept_loop ::
  "websocket_h \<Rightarrow> bool \<Rightarrow> websocket_listener_t \<Rightarrow> int list \<Rightarrow> round list
     \<Rightarrow> listener_state \<times> event list" where
  "accept_loop lib log_connections t listen_fd [] = (Polling, [])"
| "accept_loop lib log_connections t listen_fd (rnd # rnds) =
     emit [Select (filter (\<lambda>fd. fd \<noteq> - 1) listen_fd)]
       (if select_r rnd < 0 \<and> \<not> eintr rnd then
          (Returned, [Syslog ''select: %s'' [Arg_errno], Closelog])
        else if \<not> select_r rnd < 0 \<and> select_r rnd = 0 then
          accept_loop lib log_connections t listen_fd rnds
        else
          (case accept_each lib log_connections t rnd listen_fd of
             (Some f, evs) \<Rightarrow> (Faulted f, evs)
           | (None, evs) \<Rightarrow> emit evs (accept_loop lib log_connections t listen_fd rnds)))"

definition websocket_listener ::
  "websocket_h \<Rightarrow> bool \<Rightarrow> websocket_listener_t \<Rightarrow> (int + candidate list) \<Rightarrow> round list
     \<Rightarrow> listener_state \<times> event list" where
  "websocket_listener lib log_connections t getaddrinfo_r rounds =
     (case getaddrinfo_r of
        Inl err \<Rightarrow>
          (Exited, [Syslog ''getaddrinfo: %s:%s: %s'' [Arg_s (bind_addr t), Arg_s (listen_port t), Arg_errno],
                    Exit 1])
      | Inr res0 \<Rightarrow>
          let (listen_fd, evs) = listen_setup res0 0 (replicate MAXLISTEN (- 1))
          in emit evs (accept_loop lib log_connections t listen_fd rounds))"

section \<open>The transceiver controller\<close>

text \<open>
  \<open>controller_t\<close> of \<open>trxd.h\<close>, with the members the thread reads, and the two paths of
  \<open>pathnames.h\<close>; neither header is part of the sources at hand. \<open>PATH_MAX\<close> is Linux's.
\<close>

record controller_t =
  device :: string
  trx_type :: string

record pathnames_h =
  PATH_TRX :: string
  PATH_INIT :: string

definition PATH_MAX :: nat where
  "PATH_MAX = 4096"

text \<open>
  The table a driver script returns, as far as its operations go: \<open>initialize\<close> is what a
  call of the operation would do, raise an error with a message (\<open>Inl\<close>) or print lines
  and return (\<open>Inr\<close>).
\<close>

record driver =
  name :: string
  initialize :: "string + string list"

text \<open>
  What the thread meets: \<open>open\<close> returns a descriptor or \<open>-1\<close>; a terminal answers
  \<open>isatty\<close> with 1; \<open>tcgetattr\<close> and \<open>tcsetattr\<close> return 0 or \<open>-1\<close>; \<open>luaL_newstate\<close> returns a
  state or \<open>NULL\<close>; \<open>stat\<close> returns 0 for a file that exists; \<open>luaL_dofile\<close> runs the file
  and ends in an error with its message (\<open>Inl\<close>) or with the value the script returned,
  a driver's table or something else (\<open>Inr\<close>).
\<close>

record trx_env =
  open_r :: "string \<Rightarrow> int"
  isatty_r :: int
  tcgetattr_r :: int
  tcsetattr_r :: int
  luaL_newstate_null :: bool
  stat_r :: "string \<Rightarrow> int"
  luaL_dofile_r :: "string \<Rightarrow> string + driver option"

definition trx_driver_path :: "pathnames_h \<Rightarrow> controller_t \<Rightarrow> string" where
  \<comment> \<open>\<open>snprintf(trx_driver, sizeof(trx_driver), "%s/%s.lua", PATH_TRX, controller.trx_type)\<close>\<close>
  "trx_driver_path paths controller =
     take (PATH_MAX - 1) (PATH_TRX paths @ ''/'' @ trx_type controller @ ''.lua'')"

definition tty_setup :: "trx_env \<Rightarrow> int \<Rightarrow> event list" where
  \<comment> \<open>the statement \<open>if (isatty(fd)) ...\<close>\<close>
  "tty_setup env fd =
     (if isatty_r env \<noteq> 0 then
        (if tcgetattr_r env < 0 then [Syslog ''Can't get CAT device tty attributes'' []]
         else Tcsetattr_raw fd #
           (if tcsetattr_r env < 0 then [Syslog ''Can't set CAT device tty attributes'' []] else []))
      else [])"

definition lua_failed :: "string \<Rightarrow> event list" where
  \<comment> \<open>the three statements before \<open>return NULL\<close> when \<open>luaL_dofile\<close> reports an error\<close>
  "lua_failed msg = [Syslog ''Lua error: %s'' [Arg_s msg], Store_trx_control_running 0, Lua_close]"

definition trx_control_run :: "event list" where
  \<comment> \<open>from \<open>printf("trx_control started\n")\<close> to the end of the thread\<close>
  "trx_control_run =
     [Printf (''trx_control started'' @ NL) [],
      Sleep 10,
      Printf (''trx_control terminates'' @ NL) [],
      Lua_close,
      Store_trx_control_running 0]"

definition trx_control :: "pathnames_h \<Rightarrow> trx_env \<Rightarrow> controller_t \<Rightarrow> event list" where
  "trx_control paths env controller =
     [Store_trx_control_running 1, Pthread_detach] @
     (if CHR ''/'' \<in> set (trx_type controller) then
        [Syslog ''trx-type must not contain slashes'' [], Store_trx_control_running 0]
      else
        Open_rdwr (device controller) #
        (let fd = open_r env (device controller) in
         if fd = - 1 then
           [Syslog ''Can't open CAT device %s: %s'' [Arg_s (device controller), Arg_errno],
            Store_trx_control_running 0]
         else
           tty_setup env fd @
           (if luaL_newstate_null env then
              [Syslog ''cannot initialize Lua state'' [], Store_trx_control_running 0]
            else
              let trx_driver = trx_driver_path paths controller in
              Stat trx_driver #
              (if stat_r env trx_driver \<noteq> 0 then
                 [Syslog ''driver for trx-type %s not found'' [Arg_s (trx_type controller)],
                  Store_trx_control_running 0, Lua_close]
               else
                 LuaL_dofile trx_driver #
                 (case luaL_dofile_r env trx_driver of
                    Inl msg \<Rightarrow> lua_failed msg
                  | Inr v \<Rightarrow>
                      Stat (PATH_INIT paths) #
                      (if stat_r env (PATH_INIT paths) = 0 then
                         LuaL_dofile (PATH_INIT paths) #
                         (case luaL_dofile_r env (PATH_INIT paths) of
                            Inl msg \<Rightarrow> lua_failed msg
                          | Inr v' \<Rightarrow> trx_control_run)
                       else trx_control_run))))))"

text \<open>
  The loop of \<open>nmea_handler\<close> over the bytes the device delivers, one call of \<open>nmea_input\<close>
  for each, and the decoder as the handler sets it up before the loop; the members
  that \<open>malloc\<close> leaves undefined are zero here.
\<close>

fun nmea_handler :: "(string \<Rightarrow> real) \<Rightarrow> string \<Rightarrow> nmea \<Rightarrow> fault + nmea" where
  "nmea_handler atof [] np = Inr np"
| "nmea_handler atof (data # rest) np =
     (case nmea_input atof data np of Inl f \<Rightarrow> Inl f | Inr np' \<Rightarrow> nmea_handler atof rest np')"

definition nmea_start :: nmea where
  "nmea_start =
     \<lparr>cbuf = replicate NMEAMAX (CHR 0x00),
      tm = \<lparr>tm_sec = 0, tm_min = 0, tm_hour = 0, tm_mday = 0, tm_mon = 0, tm_year = 0\<rparr>,
      status = 0, latitude = 0, longitude = 0, altitude = 0, speed = 0,
      sync = 1, pos = 0, mode = CHR 0x00, locator = replicate 7 (CHR 0x00)\<rparr>"

section \<open>Notions the properties are stated with\<close>

subsection \<open>The receive buffer\<close>

definition scanned_cbuf :: "scanned \<Rightarrow> char list" where
  \<comment> \<open>the buffer as the loop of \<open>nmea_scan\<close> leaves it\<close>
  "scanned_cbuf r = (case r of Too_many_fields cb \<Rightarrow> cb | Fields cb fld cksum cs \<Rightarrow> cb)"

definition nmea_buffered :: "nmea \<Rightarrow> bool" where
  \<comment> \<open>the buffer has its \<open>NMEAMAX\<close> bytes, and while a sentence is collected \<open>pos\<close> is inside it\<close>
  "nmea_buffered np = (length (cbuf np) = NMEAMAX \<and> (sync np = 0 \<longrightarrow> pos np < NMEAMAX))"

subsection \<open>Checksums\<close>

text \<open>
  The checksum of NMEA 0183 is the exclusive-or of the bytes of the sentence body, each
  byte a number from 0 to 255. The decoder computes with \<open>char\<close> values, which are signed:
  \<open>signed_char\<close> is the number a signed \<open>char\<close> holds for a byte value.
\<close>

definition xor_bytes :: "string \<Rightarrow> int" where
  \<comment> \<open>the exclusive-or of all bytes of a string\<close>
  "xor_bytes s = fold (\<lambda>c a. a XOR of_char c) s 0"

definition signed_char :: "int \<Rightarrow> int" where
  "signed_char k = (if k < 128 then k else k - 256)"

definition sentence_body :: "char list \<Rightarrow> nat \<Rightarrow> string" where
  \<comment> \<open>the bytes between the start marker and the checksum separator, of the \<open>p\<close> bytes collected\<close>
  "sentence_body cb p = takeWhile (\<lambda>c. c \<noteq> CHR ''*'') (take p cb)"

definition separators :: "string \<Rightarrow> nat" where
  \<comment> \<open>the number of field separators; a body with \<open>k\<close> separators has \<open>k + 1\<close> fields\<close>
  "separators s = length (filter (\<lambda>c. c = CHR '','') s)"

definition cksum_without_separators :: "char list \<Rightarrow> nat \<Rightarrow> int" where
  \<comment> \<open>the exclusive-or of the body with the field separators left out\<close>
  "cksum_without_separators cb p = xor_bytes (filter (\<lambda>c. c \<noteq> CHR '','') (sentence_body cb p))"

definition scanned_cksum :: "scanned \<Rightarrow> int option" where
  \<comment> \<open>the checksum the loop of \<open>nmea_scan\<close> ends with, if it ends\<close>
  "scanned_cksum r = (case r of Too_many_fields cb \<Rightarrow> None | Fields cb fld cksum cs \<Rightarrow> Some cksum)"

definition is_hex :: "char \<Rightarrow> bool" where
  "is_hex c = (is_digit c \<or> (cval CHR ''A'' \<le> cval c \<and> cval c \<le> cval CHR ''F''))"

definition hex_value :: "string \<Rightarrow> int" where
  \<comment> \<open>the number a string of digits and capital letters A to F denotes in base 16\<close>
  "hex_value s =
     foldl (\<lambda>a c. 16 * a + (if is_digit c then cval c - cval CHR ''0'' else 10 + cval c - cval CHR ''A'')) 0 s"

definition declared_checksum :: "char list \<Rightarrow> nat \<Rightarrow> string" where
  \<comment> \<open>what follows the checksum separator, up to the end of the sentence\<close>
  "declared_checksum cb p = c_str cb (Suc (length (sentence_body cb p)))"

definition declared_mismatch :: "nmea \<Rightarrow> bool" where
  \<comment> \<open>the sentence in the buffer has a checksum that is no hexadecimal number, or a number
      that an \<open>int\<close> can hold and that is not the exclusive-or of the body\<close>
  "declared_mismatch np =
     (pos np \<le> length (cbuf np) \<and> CHR ''*'' \<in> set (take (pos np) (cbuf np))
      \<and> ((\<exists>c \<in> set (declared_checksum (cbuf np) (pos np)). \<not> is_hex c)
         \<or> (hex_value (declared_checksum (cbuf np) (pos np)) < 2 ^ 31
            \<and> hex_value (declared_checksum (cbuf np) (pos np))
                 \<noteq> xor_bytes (sentence_body (cbuf np) (pos np)))))"

subsection \<open>Positions\<close>

definition in_range :: "nmea \<Rightarrow> bool" where
  \<comment> \<open>latitude in [-90, 90] and longitude in [-180, 180]\<close>
  "in_range np =
     (- 90 \<le> latitude np \<and> latitude np \<le> 90 \<and> - 180 \<le> longitude np \<and> longitude np \<le> 180)"

definition grid_locator :: "char list \<Rightarrow> bool" where
  \<comment> \<open>a string of six bytes: two letters of the 18 from A to R, two digits, two letters of
      the 24 from A to X\<close>
  "grid_locator loc =
     (length (c_str loc 0) = 6
      \<and> cval (loc ! 0) \<in> {cval CHR ''A'' .. cval CHR ''R''}
      \<and> cval (loc ! 1) \<in> {cval CHR ''A'' .. cval CHR ''R''}
      \<and> is_digit (loc ! 2) \<and> is_digit (loc ! 3)
      \<and> cval (loc ! 4) \<in> {cval CHR ''A'' .. cval CHR ''X''}
      \<and> cval (loc ! 5) \<in> {cval CHR ''A'' .. cval CHR ''X''})"

definition approximately :: "real \<Rightarrow> real \<Rightarrow> bool" where
  \<comment> \<open>equal to within one unit of the fourth decimal\<close>
  "approximately x y = (\<bar>x - y\<bar> < 1 / 10000)"

subsection \<open>Events of the listener\<close>

definition check_handshake :: "string \<Rightarrow> event" where
  \<comment> \<open>the first message of \<open>websocket_handshake\<close>\<close>
  "check_handshake path =
     Printf (''check handshake '' @ [CHR 0x27] @ ''%s'' @ [CHR 0x27] @ NL) [Arg_s path]"

definition sets_up :: "candidate \<Rightarrow> bool" where
  \<comment> \<open>every call on the candidate succeeds\<close>
  "sets_up res =
     (\<not> socket_r res < 0 \<and> fcntl_r res = 0 \<and> setsockopt_r res = 0 \<and> bind_r res = 0
      \<and> listen_r res = 0)"

definition failure_events :: "candidate \<Rightarrow> event list" where
  \<comment> \<open>what is seen of a candidate that is skipped: nothing when \<open>socket\<close> fails, else the
      message that names the first call that failed and the socket closed\<close>
  "failure_events res =
     (if socket_r res < 0 \<or> sets_up res then []
      else [Syslog ((if fcntl_r res \<noteq> 0 then ''fcntl''
                     else if setsockopt_r res \<noteq> 0 then ''setsockopt''
                     else if bind_r res \<noteq> 0 then ''bind'' else ''listen'') @ '': %s'')
              [Arg_errno],
            Close (socket_r res)])"

subsection \<open>Events of the controller\<close>

definition trx_control_opening :: "trx_env \<Rightarrow> controller_t \<Rightarrow> event list" where
  \<comment> \<open>the events of the thread up to the creation of the Lua state\<close>
  "trx_control_opening env controller =
     [Store_trx_control_running 1, Pthread_detach, Open_rdwr (device controller)]
     @ tty_setup env (open_r env (device controller))"

definition trx_control_loading :: "pathnames_h \<Rightarrow> trx_env \<Rightarrow> controller_t \<Rightarrow> event list" where
  \<comment> \<open>the events of the thread up to the call that runs the driver file\<close>
  "trx_control_loading paths env controller =
     trx_control_opening env controller
     @ [Stat (trx_driver_path paths controller), LuaL_dofile (trx_driver_path paths controller)]"

section \<open>Inputs for the examples\<close>

text \<open>
  A sentence of thirteen fields with every byte collected, its checksum (7A) replaced by
  another; one of fourteen fields and one of thirty-three; the position of the
  specification's example, and the north-east corner of the ranges.
\<close>

definition rmc_wrong_cksum :: nmea where
  "rmc_wrong_cksum =
     nmea_start\<lparr>cbuf := ''GPRMC,143723,A,4700.0000,N,00830.0000,E,0.5,0.0,021224,,,A*7B''
                            @ replicate 21 (CHR 0x00),
                 pos := 61, sync := 0\<rparr>"

definition rmc_14_fields :: "char list" where
  "rmc_14_fields =
     ''GPRMC,143723,A,4700.0000,N,00830.0000,E,0.5,0.0,021224,,,A,S'' @ replicate 22 (CHR 0x00)"

definition fix_zurich :: nmea where
  "fix_zurich = nmea_start\<lparr>latitude := 47, longitude := 8.5\<rparr>"

definition fix_north_east :: nmea where
  \<comment> \<open>the pole, on the date line\<close>
  "fix_north_east = nmea_start\<lparr>latitude := 90, longitude := 180\<rparr>"

definition rmc_33_fields :: nmea where
  "rmc_33_fields =
     nmea_start\<lparr>cbuf := ''GPRMC'' @ replicate 32 (CHR '','') @ ''*47'' @ replicate 42 (CHR 0x00),
                 pos := 40, sync := 0\<rparr>"

text \<open>
  A stand-in for the library behind \<open>websocket.h\<close>: a request that starts with \<open>GET\<close> is
  an opening frame whose resource is the word after it, and the answer carries the accept
  value of the one key it knows (the pair of RFC 6455).
\<close>

definition example_lib :: websocket_h where
  "example_lib =
     \<lparr>wsParseHandshake = (\<lambda>req.
        if take 4 req = ''GET ''
        then (WS_OPENING_FRAME,
              \<lparr>host = ''localhost'', origin = [], key = ''dGhlIHNhbXBsZSBub25jZQ=='',
               resource = takeWhile (\<lambda>c. c \<noteq> CHR '' '') (drop 4 req)\<rparr>)
        else (WS_ERROR_FRAME, \<lparr>host = [], origin = [], key = [], resource = []\<rparr>)),
      wsGetHandshakeAnswer = (\<lambda>hs.
        ''HTTP/1.1 101 Switching Protocols'' @ CRLF @ ''Upgrade: websocket'' @ CRLF
        @ ''Connection: Upgrade'' @ CRLF @ ''Sec-WebSocket-Accept: ''
        @ (if key hs = ''dGhlIHNhbXBsZSBub25jZQ=='' then ''s3pPLMBiTxaQ9kYGzzhZRbK+xOo='' else [])
        @ CRLF @ CRLF),
      versionField = ''Sec-WebSocket-Version: '',
      version = ''13''\<rparr>"

definition example_t :: websocket_listener_t where
  "example_t =
     \<lparr>bind_addr = ''localhost'', listen_port = ''14290'', handshake_path = ''/trx-control''\<rparr>"

definition example_sock :: websocket where
  "example_sock = \<lparr>socket = 4, ssl = None, ctx = None\<rparr>"

definition good_candidate :: "int \<Rightarrow> candidate" where
  "good_candidate fd = \<lparr>socket_r = fd, fcntl_r = 0, setsockopt_r = 0, bind_r = 0, listen_r = 0\<rparr>"

definition no_socket :: candidate where
  "no_socket = \<lparr>socket_r = - 1, fcntl_r = 0, setsockopt_r = 0, bind_r = 0, listen_r = 0\<rparr>"

definition address_in_use :: "int \<Rightarrow> candidate" where
  "address_in_use fd = \<lparr>socket_r = fd, fcntl_r = 0, setsockopt_r = 0, bind_r = - 1, listen_r = 0\<rparr>"

definition timeout_round :: round where
  "timeout_round = \<lparr>select_r = 0, eintr = False, readfds = [], accepts = []\<rparr>"

definition wrong_path_round :: round where
  "wrong_path_round =
     \<lparr>select_r = 1, eintr = False, readfds = [3],
      accepts = [(3, \<lparr>client_fd = 4, getnameinfo_r = 0, hbuf = ''127.0.0.1'',
                      recv_r = 19, request = ''GET /other HTTP/1.1''\<rparr>)]\<rparr>"

definition reset_round :: round where
  \<comment> \<open>a peer that resets the connection before it has sent a byte: \<open>recv\<close> returns \<open>-1\<close>\<close>
  "reset_round =
     \<lparr>select_r = 1, eintr = False, readfds = [3],
      accepts = [(3, \<lparr>client_fd = 4, getnameinfo_r = 0, hbuf = ''127.0.0.1'',
                      recv_r = - 1, request = []\<rparr>)]\<rparr>"

text \<open>
  A system with one serial device and the driver \<open>simulated\<close>, whose \<open>initialize\<close> raises an
  error; no init script.
\<close>

definition example_paths :: pathnames_h where
  "example_paths = \<lparr>PATH_TRX = ''/usr/share/trxd/trx'', PATH_INIT = ''/etc/trxd.lua''\<rparr>"

definition failing_driver :: driver where
  "failing_driver =
     \<lparr>name = ''simulated'', initialize = Inl ''initialize: no answer from the transceiver''\<rparr>"

definition example_env :: trx_env where
  "example_env =
     \<lparr>open_r = (\<lambda>path. if path = ''/dev/ttyUSB0'' then 5 else - 1),
      isatty_r = 1, tcgetattr_r = 0, tcsetattr_r = 0, luaL_newstate_null = False,
      stat_r = (\<lambda>path. if path = ''/usr/share/trxd/trx/simulated.lua'' then 0 else - 1),
      luaL_dofile_r = (\<lambda>path. if path = ''/usr/share/trxd/trx/simulated.lua''
                               then Inr (Some failing_driver) else Inl ''cannot open file'')\<rparr>"

definition simulated_controller :: controller_t where
  "simulated_controller = \<lparr>device = ''/dev/ttyUSB0'', trx_type = ''simulated''\<rparr>"

definition slash_controller :: controller_t where
  "slash_controller = \<lparr>device = ''/dev/ttyUSB0'', trx_type = ''../../../tmp/evil''\<rparr>"

section \<open>Properties of the NMEA decoder\<close>

subsection \<open>C values\<close>

lemma cval_A: "cval CHR ''A'' = 65"
  by (simp add: cval_def)

lemma cval_0: "cval CHR ''0'' = 48"
  by (simp add: cval_def)

lemma c_char_not_nul: "0 < k \<Longrightarrow> k < 256 \<Longrightarrow> c_char k \<noteq> CHR 0x00"
proof
  assume a: "0 < k" "k < 256" and e: "c_char k = CHR 0x00"
  have "(of_char (c_char k) :: int) = k mod 256" by (simp add: c_char_def)
  moreover have "(of_char (CHR 0x00) :: int) = 0" by simp
  ultimately show False using a e by simp
qed

lemma cval_c_char: "0 \<le> k \<Longrightarrow> k < 128 \<Longrightarrow> cval (c_char k) = k"
  by (simp add: cval_def c_char_def)

lemma c_int_floor: "0 \<le> x \<Longrightarrow> c_int x = \<lfloor>x\<rfloor>"
  by (simp add: c_int_def)

lemma c_div_nonneg: "0 \<le> a \<Longrightarrow> 0 < b \<Longrightarrow> c_div a b = a div b"
  by (simp add: c_div_def)

lemma c_mod_nonneg: "0 \<le> a \<Longrightarrow> 0 < b \<Longrightarrow> c_mod a b = a mod b"
  by (simp add: c_mod_def c_div_nonneg minus_mult_div_eq_mod)

lemma int32_small: "0 \<le> k \<Longrightarrow> k < 2 ^ 31 \<Longrightarrow> int32 k = k"
  by (simp add: int32_def signed_take_bit_int_eq_self)

subsection \<open>The locator\<close>

text \<open>
  The bytes of the locator in exact arithmetic, one lemma for each expression of
  \<open>nmea_locator\<close>.
\<close>

lemma field_char:
  assumes "0 \<le> x" "0 < d" "x < d * 18"
  shows "65 \<le> c_int (real_of_int (cval CHR ''A'') + x / d)"
    and "c_int (real_of_int (cval CHR ''A'') + x / d) \<le> 82"
proof -
  have q: "0 \<le> x / d" using assms by simp
  have f: "c_int (real_of_int (cval CHR ''A'') + x / d) = 65 + \<lfloor>x / d\<rfloor>"
    using q by (simp add: c_int_floor cval_A)
  have "0 \<le> \<lfloor>x / d\<rfloor>" using q by simp
  moreover have "x / d < 18" using assms by (simp add: pos_divide_less_eq mult.commute)
  then have "\<lfloor>x / d\<rfloor> < 18" by (simp add: floor_less_iff)
  ultimately show "65 \<le> c_int (real_of_int (cval CHR ''A'') + x / d)"
    and "c_int (real_of_int (cval CHR ''A'') + x / d) \<le> 82" using f by simp_all
qed

lemma square_lon_char:
  assumes "0 \<le> x"
  shows "48 \<le> cval CHR ''0'' + c_div (c_mod (c_int x) 20) 2"
    and "cval CHR ''0'' + c_div (c_mod (c_int x) 20) 2 \<le> 57"
proof -
  have n: "0 \<le> \<lfloor>x\<rfloor>" using assms by simp
  have e: "c_div (c_mod (c_int x) 20) 2 = \<lfloor>x\<rfloor> mod 20 div 2"
    using assms n by (simp add: c_int_floor c_mod_nonneg c_div_nonneg)
  have "0 \<le> \<lfloor>x\<rfloor> mod 20 div 2" by simp
  moreover have "\<lfloor>x\<rfloor> mod 20 div 2 \<le> 9" by presburger
  ultimately show "48 \<le> cval CHR ''0'' + c_div (c_mod (c_int x) 20) 2"
    and "cval CHR ''0'' + c_div (c_mod (c_int x) 20) 2 \<le> 57" using e by (simp_all add: cval_0)
qed

lemma square_lat_char:
  assumes "0 \<le> x"
  shows "48 \<le> cval CHR ''0'' + c_mod (c_int x) 10"
    and "cval CHR ''0'' + c_mod (c_int x) 10 \<le> 57"
proof -
  have n: "0 \<le> \<lfloor>x\<rfloor>" using assms by simp
  have e: "c_mod (c_int x) 10 = \<lfloor>x\<rfloor> mod 10"
    using assms n by (simp add: c_int_floor c_mod_nonneg)
  have "0 \<le> \<lfloor>x\<rfloor> mod 10" by simp
  moreover have "\<lfloor>x\<rfloor> mod 10 \<le> 9" by presburger
  ultimately show "48 \<le> cval CHR ''0'' + c_mod (c_int x) 10"
    and "cval CHR ''0'' + c_mod (c_int x) 10 \<le> 57" using e by (simp_all add: cval_0)
qed

lemma subsquare_lon_char:
  assumes "0 \<le> x"
  shows "65 \<le> c_int (real_of_int (cval CHR ''A'') + (x - real_of_int (c_div (c_int x) 2 * 2)) * 12)"
    and "c_int (real_of_int (cval CHR ''A'') + (x - real_of_int (c_div (c_int x) 2 * 2)) * 12) \<le> 88"
proof -
  have n: "0 \<le> \<lfloor>x\<rfloor>" using assms by simp
  define r where "r = x - real_of_int (c_div (c_int x) 2 * 2)"
  have e: "c_div (c_int x) 2 * 2 = \<lfloor>x\<rfloor> - \<lfloor>x\<rfloor> mod 2"
    using assms n by (simp add: c_int_floor c_div_nonneg minus_mod_eq_div_mult)
  have m: "0 \<le> \<lfloor>x\<rfloor> mod 2" "\<lfloor>x\<rfloor> mod 2 \<le> 1" by presburger+
  have r: "r = (x - real_of_int \<lfloor>x\<rfloor>) + real_of_int (\<lfloor>x\<rfloor> mod 2)"
    unfolding r_def e by simp
  have "0 \<le> x - real_of_int \<lfloor>x\<rfloor>" by simp
  moreover have "0 \<le> real_of_int (\<lfloor>x\<rfloor> mod 2)" using m(1) by simp
  ultimately have r0: "0 \<le> r" unfolding r by linarith
  have "x - real_of_int \<lfloor>x\<rfloor> < 1" by linarith
  moreover have "real_of_int (\<lfloor>x\<rfloor> mod 2) \<le> 1" using m(2) by simp
  ultimately have r2: "r < 2" unfolding r by linarith
  have f: "c_int (real_of_int (cval CHR ''A'') + r * 12) = 65 + \<lfloor>r * 12\<rfloor>"
    using r0 by (simp add: c_int_floor cval_A)
  have "0 \<le> \<lfloor>r * 12\<rfloor>" using r0 by simp
  moreover have "\<lfloor>r * 12\<rfloor> < 24" using r2 by (simp add: floor_less_iff)
  ultimately show "65 \<le> c_int (real_of_int (cval CHR ''A'') + (x - real_of_int (c_div (c_int x) 2 * 2)) * 12)"
    and "c_int (real_of_int (cval CHR ''A'') + (x - real_of_int (c_div (c_int x) 2 * 2)) * 12) \<le> 88"
    using f unfolding r_def by simp_all
qed

lemma subsquare_lat_char:
  assumes "0 \<le> x"
  shows "65 \<le> c_int (real_of_int (cval CHR ''A'') + (x - real_of_int (c_int x)) * 24)"
    and "c_int (real_of_int (cval CHR ''A'') + (x - real_of_int (c_int x)) * 24) \<le> 88"
proof -
  define r where "r = x - real_of_int (c_int x)"
  have r: "r = x - real_of_int \<lfloor>x\<rfloor>" unfolding r_def using assms by (simp add: c_int_floor)
  have r0: "0 \<le> r" unfolding r by simp
  have r1: "r < 1" unfolding r by linarith
  have f: "c_int (real_of_int (cval CHR ''A'') + r * 24) = 65 + \<lfloor>r * 24\<rfloor>"
    using r0 by (simp add: c_int_floor cval_A)
  have "0 \<le> \<lfloor>r * 24\<rfloor>" using r0 by simp
  moreover have "\<lfloor>r * 24\<rfloor> < 24" using r1 by (simp add: floor_less_iff)
  ultimately show "65 \<le> c_int (real_of_int (cval CHR ''A'') + (x - real_of_int (c_int x)) * 24)"
    and "c_int (real_of_int (cval CHR ''A'') + (x - real_of_int (c_int x)) * 24) \<le> 88"
    using f unfolding r_def by simp_all
qed

lemma grid_locatorI:
  assumes "65 \<le> k0" "k0 \<le> 82" "65 \<le> k1" "k1 \<le> 82" "48 \<le> k2" "k2 \<le> 57" "48 \<le> k3" "k3 \<le> 57"
    "65 \<le> k4" "k4 \<le> 88" "65 \<le> k5" "k5 \<le> 88"
  shows "grid_locator [c_char k0, c_char k1, c_char k2, c_char k3, c_char k4, c_char k5, CHR 0x00]"
proof -
  have nz: "c_char k0 \<noteq> CHR 0x00" "c_char k1 \<noteq> CHR 0x00" "c_char k2 \<noteq> CHR 0x00"
    "c_char k3 \<noteq> CHR 0x00" "c_char k4 \<noteq> CHR 0x00" "c_char k5 \<noteq> CHR 0x00"
    using assms by (simp_all add: c_char_not_nul)
  have cv: "cval (c_char k0) = k0" "cval (c_char k1) = k1" "cval (c_char k2) = k2"
    "cval (c_char k3) = k3" "cval (c_char k4) = k4" "cval (c_char k5) = k5"
    using assms by (simp_all add: cval_c_char)
  have l: "length (c_str [c_char k0, c_char k1, c_char k2, c_char k3, c_char k4, c_char k5, CHR 0x00] 0) = 6"
    using nz by (simp add: c_str_def)
  have k: "cval CHR ''R'' = 82" "cval CHR ''X'' = 88" "cval CHR ''9'' = 57"
    by (simp_all add: cval_def)
  show ?thesis
    unfolding grid_locator_def using l cv assms by (simp add: is_digit_def cval_A cval_0 k)
qed

lemma nmea_locator_writes:
  assumes "in_range np" "latitude np < 90" "longitude np < 180"
  shows "\<exists>loc. nmea_locator np = (0, np\<lparr>locator := loc\<rparr>) \<and> grid_locator loc"
proof -
  have lon: "0 \<le> longitude np + 180" "longitude np + 180 < 20 * 18"
    and lat: "0 \<le> latitude np + 90" "latitude np + 90 < 10 * 18"
    using assms by (simp_all add: in_range_def)
  have g: "grid_locator
     [c_char (c_int (real_of_int (cval CHR ''A'') + (longitude np + 180) / 20)),
      c_char (c_int (real_of_int (cval CHR ''A'') + (latitude np + 90) / 10)),
      c_char (cval CHR ''0'' + c_div (c_mod (c_int (longitude np + 180)) 20) 2),
      c_char (cval CHR ''0'' + c_mod (c_int (latitude np + 90)) 10),
      c_char (c_int (real_of_int (cval CHR ''A'')
         + (longitude np + 180 - real_of_int (c_div (c_int (longitude np + 180)) 2 * 2)) * 12)),
      c_char (c_int (real_of_int (cval CHR ''A'')
         + (latitude np + 90 - real_of_int (c_int (latitude np + 90))) * 24)),
      CHR 0x00]"
    by (rule grid_locatorI)
      (rule field_char [OF lon(1) _ lon(2)] field_char [OF lat(1) _ lat(2)]
        square_lon_char [OF lon(1)] square_lat_char [OF lat(1)]
        subsquare_lon_char [OF lon(1)] subsquare_lat_char [OF lat(1)] | simp)+
  have "\<not> (longitude np > 180 \<or> longitude np < - 180 \<or> latitude np > 90 \<or> latitude np < - 90)"
    using assms by (auto simp: in_range_def)
  then have "nmea_locator np = (0, np\<lparr>locator :=
     [c_char (c_int (real_of_int (cval CHR ''A'') + (longitude np + 180) / 20)),
      c_char (c_int (real_of_int (cval CHR ''A'') + (latitude np + 90) / 10)),
      c_char (cval CHR ''0'' + c_div (c_mod (c_int (longitude np + 180)) 20) 2),
      c_char (cval CHR ''0'' + c_mod (c_int (latitude np + 90)) 10),
      c_char (c_int (real_of_int (cval CHR ''A'')
         + (longitude np + 180 - real_of_int (c_div (c_int (longitude np + 180)) 2 * 2)) * 12)),
      c_char (c_int (real_of_int (cval CHR ''A'')
         + (latitude np + 90 - real_of_int (c_int (latitude np + 90))) * 24)),
      CHR 0x00]\<rparr>)"
    unfolding nmea_locator_def Let_def by (simp only: if_False)
  with g show ?thesis by blast
qed

lemma nmea_locator_out_of_range: "\<not> in_range np \<Longrightarrow> nmea_locator np = (- 1, np)"
proof -
  assume "\<not> in_range np"
  then have "longitude np > 180 \<or> longitude np < - 180 \<or> latitude np > 90 \<or> latitude np < - 90"
    by (auto simp: in_range_def)
  then show "nmea_locator np = (- 1, np)"
    unfolding nmea_locator_def by (simp only: if_True)
qed

lemma nmea_locator_zurich:
  "nmea_locator fix_zurich = (0, fix_zurich\<lparr>locator := ''JN47GA'' @ [CHR 0x00]\<rparr>)
   \<and> grid_locator (''JN47GA'' @ [CHR 0x00])"
  by code_simp

text \<open>
  Claim C3 says that for every latitude in [-90, 90] and longitude in [-180, 180] the
  locator computation succeeds, is deterministic and writes a 6-character grid locator,
  and that outside those ranges it fails and leaves the stored locator. It does fail
  outside (\<open>nmea_locator_out_of_range\<close>), and below latitude 90 and longitude 180 what it
  writes has the form of a locator (\<open>nmea_locator_writes\<close>). But its test lets latitude 90
  and longitude 180 pass, where the index of the band is 18: the letter written is S, the
  nineteenth, and a grid locator has the 18 bands A to R. Every operation on the way is
  exact in binary floating point, from the fields \<open>9000.0000\<close> and \<open>18000.0000\<close> of a
  sentence to the quotients 180 / 10 and 360 / 20.
\<close>

theorem nmea_locator_boundary_band:
  "in_range fix_north_east
   \<and> nmea_locator fix_north_east = (0, fix_north_east\<lparr>locator := ''SS00AA'' @ [CHR 0x00]\<rparr>)
   \<and> \<not> grid_locator (''SS00AA'' @ [CHR 0x00])
   \<and> (case nmea_handler (\<lambda>s. 0)
            (''$GPRMC,143723,A,9000.0000,N,18000.0000,E,0.5,0.0,021224,,,A'' @ NL) nmea_start of
        Inl f \<Rightarrow> False
      | Inr np \<Rightarrow>
          status np = 1 \<and> latitude np = 90 \<and> longitude np = 180
          \<and> c_str (locator np) 0 = ''SS00AA'')"
  by code_simp

subsection \<open>Degrees and minutes\<close>

text \<open>
  Claim C9, as it is stated: the degrees-minutes parser applied to the field
  \<open>1234.5678\<close> with hemisphere N produces approximately +12.5763 decimal degrees. It
  does not: 12 degrees and 34.5678 minutes are 12.57613 degrees, further from 12.5763
  than one unit of the fourth decimal.
\<close>

theorem nmea_degrees_example_counterexample:
  "\<not> (case nmea_degrees ''1234.5678'' False of None \<Rightarrow> False | Some d \<Rightarrow> approximately d 12.5763)"
  by (simp add: nmea_degrees_def cval_def approximately_def)

text \<open>
  Claim C9, amended: the degrees-minutes parser applied to the field \<open>1234.5678\<close> with
  hemisphere N produces 12 + 34.5678 / 60 = 12.57613 decimal degrees, approximately
  +12.5761.
\<close>

theorem nmea_degrees_example:
  "nmea_degrees ''1234.5678'' False = Some 12.57613 \<and> approximately 12.57613 12.5761"
  by (simp add: nmea_degrees_def cval_def approximately_def)

subsection \<open>The receive buffer\<close>

text \<open>
  Whatever bytes arrive, the buffer keeps its size and \<open>pos\<close> stays inside it while a
  sentence is collected, so \<open>nmea_scan\<close> is only ever called with \<open>pos\<close> below the size of
  the buffer.
\<close>

lemma scan_loop_length: "length (scanned_cbuf (nmea_scan_loop cb n p fld ck)) = length cb"
proof (induction cb n p fld ck rule: nmea_scan_loop.induct)
  case (1 cb n p fld cksum)
  show ?case
  proof (cases "n < p \<and> cb ! n \<noteq> CHR ''*''")
    case False
    then show ?thesis by (auto simp add: nmea_scan_loop.simps [of cb n] scanned_cbuf_def)
  next
    case True
    show ?thesis
    proof (cases "cb ! n = CHR '',''")
      case comma: True
      show ?thesis
      proof (cases "length fld < MAXFLDS")
        case room: True
        with True comma "1.IH"(1) show ?thesis by (simp add: nmea_scan_loop.simps [of cb n])
      next
        case False
        with True comma show ?thesis by (simp add: nmea_scan_loop.simps [of cb n] scanned_cbuf_def)
      qed
    next
      case False
      with True "1.IH"(2) show ?thesis by (simp add: nmea_scan_loop.simps [of cb n])
    qed
  qed
qed

lemma nmea_gprmc_keeps:
  "nmea_gprmc atof np fld = Inr np' \<Longrightarrow> cbuf np' = cbuf np \<and> pos np' = pos np \<and> sync np' = sync np"
  by (auto simp add: nmea_gprmc_def Let_def split_beta split: if_splits option.splits)

lemma nmea_scan_keeps:
  assumes "nmea_scan atof np = Inr np'"
  shows "length (cbuf np') = length (cbuf np) \<and> pos np' = pos np \<and> sync np' = sync np"
proof -
  have l: "length (scanned_cbuf (nmea_scan_loop (cbuf np) 0 (pos np) [0] 0)) = length (cbuf np)"
    by (rule scan_loop_length)
  show ?thesis
  proof (cases "nmea_scan_loop (cbuf np) 0 (pos np) [0] 0")
    case (Too_many_fields cb)
    with assms l show ?thesis by (auto simp add: nmea_scan_def scanned_cbuf_def)
  next
    case (Fields cb fld cksum cs)
    with l have lc: "length cb = length (cbuf np)" by (simp add: scanned_cbuf_def)
    have g: "cbuf x = cb \<and> pos x = pos np \<and> sync x = sync np"
      if "nmea_gprmc atof (np\<lparr>cbuf := cb\<rparr>) fld = Inr x" for x
      using nmea_gprmc_keeps [OF that] by simp
    from assms Fields lc g show ?thesis
      by (auto simp add: nmea_scan_def Let_def nmea_decode_gga_def nmea_locator_def
          split: if_splits sum.splits)
  qed
qed

lemma nmea_input_buffered:
  assumes "nmea_buffered np" "nmea_input atof c np = Inr np'"
  shows "nmea_buffered np'"
proof (cases "c = CHR 0x0D \<or> c = CHR 0x0A")
  case True
  show ?thesis
  proof (cases "sync np = 0")
    case s: True
    from True s assms(2) obtain x
      where x: "nmea_scan atof (np\<lparr>cbuf := (cbuf np)[pos np := CHR 0x00]\<rparr>) = Inr x"
        and n: "np' = x\<lparr>sync := 1\<rparr>"
      by (auto simp add: nmea_input_def split: sum.splits if_splits)
    from nmea_scan_keeps [OF x] assms(1) n show ?thesis by (simp add: nmea_buffered_def)
  next
    case False
    with True assms show ?thesis by (auto simp add: nmea_input_def split: if_splits)
  qed
next
  case False
  with assms show ?thesis
    by (auto simp add: nmea_input_def nmea_buffered_def NMEAMAX_def split: if_splits)
qed

lemma nmea_handler_buffered:
  "nmea_buffered np \<Longrightarrow> nmea_handler atof bytes np = Inr np' \<Longrightarrow> nmea_buffered np'"
proof (induction bytes arbitrary: np)
  case Nil
  then show ?case by simp
next
  case (Cons c bytes)
  from Cons.prems(2) obtain x where x: "nmea_input atof c np = Inr x"
    and r: "nmea_handler atof bytes x = Inr np'"
    by (auto split: sum.splits)
  from Cons.IH [OF nmea_input_buffered [OF Cons.prems(1) x] r] show ?case .
qed

lemma nmea_start_buffered: "nmea_buffered nmea_start"
  by (simp add: nmea_buffered_def nmea_start_def)

subsection \<open>The checksum computed\<close>

text \<open>
  The exclusive-or of \<open>char\<close> values is the exclusive-or of the bytes, taken as a signed
  \<open>char\<close>.
\<close>

lemma signed_take_bit_xor_int:
  "signed_take_bit n (k XOR l) = signed_take_bit n k XOR signed_take_bit n l" for k l :: int
  by (rule bit_eqI) (auto simp add: bit_signed_take_bit_iff bit_xor_iff min_def)

lemma signed_char_take_bit:
  assumes "0 \<le> k" "k < 256"
  shows "signed_take_bit 7 k = signed_char k"
proof (cases "k < 128")
  case True
  then show ?thesis
    using assms by (simp add: signed_take_bit_eq_take_bit_shift take_bit_eq_mod signed_char_def)
next
  case False
  then have "(k - 128) mod 256 = k - 128"
    using assms by (intro mod_pos_pos_trivial) simp_all
  moreover have "(k - 128 + 256) mod 256 = (k - 128) mod 256" by (rule mod_add_self2)
  moreover have "k - 128 + 256 = k + 128" by simp
  ultimately have "(k + 128) mod 256 = k - 128" by (simp only:)
  then have "(k + 128) mod 256 - 128 = k - 256" by simp
  then show ?thesis
    using False by (simp only: signed_take_bit_eq_take_bit_shift take_bit_eq_mod signed_char_def)
      simp
qed

lemma of_char_byte: "0 \<le> (of_char c :: int) \<and> (of_char c :: int) < 256"
proof -
  have "(of_char c :: int) mod 256 = of_char c" by simp
  then show ?thesis
    using pos_mod_sign [of 256 "of_char c :: int"] pos_mod_bound [of 256 "of_char c :: int"]
    by simp
qed

lemma cval_signed_char: "cval c = signed_char (of_char c)"
  by (simp add: cval_def signed_char_def)

lemma fold_xor_bound:
  "0 \<le> k \<Longrightarrow> k < 2 ^ n \<Longrightarrow> \<forall>c \<in> set s. (of_char c :: int) < 2 ^ n \<Longrightarrow>
     0 \<le> fold (\<lambda>c a. a XOR of_char c) s k \<and> fold (\<lambda>c a. a XOR of_char c) s k < 2 ^ n" for k :: int
proof (induction s arbitrary: k)
  case Nil
  then show ?case by simp
next
  case (Cons c s)
  have "0 \<le> k XOR of_char c" using Cons.prems(1) of_char_byte [of c] by simp
  moreover have "k XOR of_char c < 2 ^ n"
    using Cons.prems by (intro XOR_upper) simp_all
  ultimately show ?case using Cons.IH [of "k XOR of_char c"] Cons.prems(3) by simp
qed

lemma fold_xor_signed:
  "fold (\<lambda>c a. a XOR cval c) s (signed_take_bit 7 k)
     = signed_take_bit 7 (fold (\<lambda>c a. a XOR of_char c) s k)"
proof (induction s arbitrary: k)
  case Nil
  show ?case by simp
next
  case (Cons c s)
  have "cval c = signed_take_bit 7 (of_char c)"
    using signed_char_take_bit [of "of_char c"] of_char_byte [of c] by (simp add: cval_signed_char)
  then have "signed_take_bit 7 k XOR cval c = signed_take_bit 7 (k XOR of_char c)"
    by (simp add: signed_take_bit_xor_int)
  then show ?case using Cons.IH [of "k XOR of_char c"] by simp
qed

lemma xor_bytes_byte: "0 \<le> xor_bytes s \<and> xor_bytes s < 256"
  using fold_xor_bound [of 0 8 s] of_char_byte by (simp add: xor_bytes_def)

lemma cksum_xor_bytes: "fold (\<lambda>c a. a XOR cval c) s 0 = signed_char (xor_bytes s)"
proof -
  have "fold (\<lambda>c a. a XOR cval c) s (signed_take_bit 7 0) = signed_take_bit 7 (xor_bytes s)"
    unfolding xor_bytes_def by (rule fold_xor_signed)
  then show ?thesis using signed_char_take_bit [of "xor_bytes s"] xor_bytes_byte [of s] by simp
qed

lemma xor_bytes_ascii:
  "\<forall>c \<in> set s. (of_char c :: int) < 128 \<Longrightarrow> signed_char (xor_bytes s) = xor_bytes s"
  using fold_xor_bound [of 0 7 s] by (simp add: xor_bytes_def signed_char_def)
lemma scan_loop_cksum:
  "n \<le> p \<Longrightarrow> p \<le> length cb \<Longrightarrow> nmea_scan_loop cb n p fld ck0 = Fields cb' fld' ck cs \<Longrightarrow>
     ck = fold (\<lambda>c a. a XOR cval c) (takeWhile (\<lambda>c. c \<noteq> CHR ''*'') (drop n (take p cb))) ck0"
proof (induction cb n p fld ck0 rule: nmea_scan_loop.induct)
  case (1 cb n p fld cksum)
  show ?case
  proof (cases "n < p")
    case False
    with "1.prems" show ?thesis by (simp add: nmea_scan_loop.simps)
  next
    case True
    then have d: "drop n (take p cb) = cb ! n # drop (Suc n) (take p cb)"
      using "1.prems"(2) Cons_nth_drop_Suc [of n "take p cb", symmetric] by simp
    have u: "drop (Suc n) (take p (cb[n := CHR 0x00])) = drop (Suc n) (take p cb)"
      by (simp add: take_update_swap)
    show ?thesis
    proof (cases "cb ! n = CHR ''*''")
      case star: True
      with True "1.prems"(3) show ?thesis by (simp add: nmea_scan_loop.simps d)
    next
      case nostar: False
      show ?thesis
      proof (cases "cb ! n = CHR '',''")
        case comma: True
        show ?thesis
        proof (cases "length fld < MAXFLDS")
          case room: True
          from True nostar comma room "1.prems"(3)
          have r: "nmea_scan_loop (cb[n := CHR 0x00]) (n + 1) p (fld @ [n + 1]) (cksum XOR cval (cb ! n))
                    = Fields cb' fld' ck cs"
            by (simp add: nmea_scan_loop.simps [of cb n])
          have "ck = fold (\<lambda>c a. a XOR cval c)
                  (takeWhile (\<lambda>c. c \<noteq> CHR ''*'') (drop (n + 1) (take p (cb[n := CHR 0x00]))))
                  (cksum XOR cval (cb ! n))"
            using "1.IH"(1) [OF True nostar comma room _ _ r] True "1.prems"(2) by simp
          then show ?thesis using nostar u by (simp add: d)
        next
          case False
          with True nostar comma "1.prems"(3) show ?thesis
            by (simp add: nmea_scan_loop.simps [of cb n])
        qed
      next
        case nocomma: False
        from True nostar nocomma "1.prems"(3)
        have r: "nmea_scan_loop cb (n + 1) p fld (cksum XOR cval (cb ! n)) = Fields cb' fld' ck cs"
          by (simp add: nmea_scan_loop.simps [of cb n])
        have "ck = fold (\<lambda>c a. a XOR cval c)
                (takeWhile (\<lambda>c. c \<noteq> CHR ''*'') (drop (n + 1) (take p cb)))
                (cksum XOR cval (cb ! n))"
          using "1.IH"(2) [OF True nostar nocomma _ _ r] True "1.prems"(2) by simp
        then show ?thesis using nostar by (simp add: d)
      qed
    qed
  qed
qed

lemma scan_loop_ends:
  "n \<le> p \<Longrightarrow> p \<le> length cb \<Longrightarrow>
   length fld + length (filter (\<lambda>c. c = CHR '','')
      (takeWhile (\<lambda>c. c \<noteq> CHR ''*'') (drop n (take p cb)))) \<le> MAXFLDS \<Longrightarrow>
     \<exists>cb' fld' ck cs. nmea_scan_loop cb n p fld ck0 = Fields cb' fld' ck cs"
proof (induction cb n p fld ck0 rule: nmea_scan_loop.induct)
  case (1 cb n p fld cksum)
  show ?case
  proof (cases "n < p")
    case False
    then show ?thesis by (simp add: nmea_scan_loop.simps)
  next
    case True
    then have d: "drop n (take p cb) = cb ! n # drop (Suc n) (take p cb)"
      using "1.prems"(2) Cons_nth_drop_Suc [of n "take p cb", symmetric] by simp
    have u: "drop (Suc n) (take p (cb[n := CHR 0x00])) = drop (Suc n) (take p cb)"
      by (simp add: take_update_swap)
    show ?thesis
    proof (cases "cb ! n = CHR ''*''")
      case star: True
      with True show ?thesis by (simp add: nmea_scan_loop.simps [of cb n])
    next
      case nostar: False
      show ?thesis
      proof (cases "cb ! n = CHR '',''")
        case comma: True
        with nostar "1.prems"(3) have room: "length fld < MAXFLDS"
          and rest: "length (fld @ [n + 1]) + length (filter (\<lambda>c. c = CHR '','')
            (takeWhile (\<lambda>c. c \<noteq> CHR ''*'') (drop (n + 1) (take p (cb[n := CHR 0x00]))))) \<le> MAXFLDS"
          using u by (simp_all add: d)
        have "\<exists>cb' fld' ck cs.
            nmea_scan_loop (cb[n := CHR 0x00]) (n + 1) p (fld @ [n + 1]) (cksum XOR cval (cb ! n))
              = Fields cb' fld' ck cs"
          using "1.IH"(1) [OF True nostar comma room _ _ rest] True "1.prems"(2) by simp
        with True nostar comma room show ?thesis by (simp add: nmea_scan_loop.simps [of cb n])
      next
        case nocomma: False
        with nostar "1.prems"(3)
        have rest: "length fld + length (filter (\<lambda>c. c = CHR '','')
            (takeWhile (\<lambda>c. c \<noteq> CHR ''*'') (drop (n + 1) (take p cb)))) \<le> MAXFLDS"
          by (simp add: d)
        have "\<exists>cb' fld' ck cs.
            nmea_scan_loop cb (n + 1) p fld (cksum XOR cval (cb ! n)) = Fields cb' fld' ck cs"
          using "1.IH"(2) [OF True nostar nocomma _ _ rest] True "1.prems"(2) by simp
        with True nostar nocomma show ?thesis by (simp add: nmea_scan_loop.simps [of cb n])
      qed
    qed
  qed
qed

lemma scan_loop_abandons:
  "n \<le> p \<Longrightarrow> p \<le> length cb \<Longrightarrow> length fld \<le> MAXFLDS \<Longrightarrow>
   MAXFLDS < length fld + separators (takeWhile (\<lambda>c. c \<noteq> CHR ''*'') (drop n (take p cb))) \<Longrightarrow>
     \<exists>cb'. nmea_scan_loop cb n p fld ck0 = Too_many_fields cb'"
proof (induction cb n p fld ck0 rule: nmea_scan_loop.induct)
  case (1 cb n p fld cksum)
  show ?case
  proof (cases "n < p")
    case False
    with "1.prems" show ?thesis by (simp add: separators_def)
  next
    case True
    then have d: "drop n (take p cb) = cb ! n # drop (Suc n) (take p cb)"
      using "1.prems"(2) Cons_nth_drop_Suc [of n "take p cb", symmetric] by simp
    have u: "drop (Suc n) (take p (cb[n := CHR 0x00])) = drop (Suc n) (take p cb)"
      by (simp add: take_update_swap)
    show ?thesis
    proof (cases "cb ! n = CHR ''*''")
      case star: True
      with "1.prems"(3,4) show ?thesis by (simp add: d separators_def)
    next
      case nostar: False
      show ?thesis
      proof (cases "cb ! n = CHR '',''")
        case comma: True
        show ?thesis
        proof (cases "length fld < MAXFLDS")
          case room: True
          have rest: "MAXFLDS < length (fld @ [n + 1]) + separators
              (takeWhile (\<lambda>c. c \<noteq> CHR ''*'') (drop (n + 1) (take p (cb[n := CHR 0x00]))))"
            using "1.prems"(4) nostar comma u by (simp add: d separators_def)
          have "\<exists>cb'. nmea_scan_loop (cb[n := CHR 0x00]) (n + 1) p (fld @ [n + 1])
                       (cksum XOR cval (cb ! n)) = Too_many_fields cb'"
            using "1.IH"(1) [OF True nostar comma room _ _ _ rest] True "1.prems"(2) room by simp
          with True nostar comma room show ?thesis by (simp add: nmea_scan_loop.simps [of cb n])
        next
          case False
          with True nostar comma show ?thesis by (simp add: nmea_scan_loop.simps [of cb n])
        qed
      next
        case nocomma: False
        with nostar "1.prems"(4)
        have rest: "MAXFLDS < length fld + separators
            (takeWhile (\<lambda>c. c \<noteq> CHR ''*'') (drop (n + 1) (take p cb)))"
          by (simp add: d separators_def)
        have "\<exists>cb'. nmea_scan_loop cb (n + 1) p fld (cksum XOR cval (cb ! n)) = Too_many_fields cb'"
          using "1.IH"(2) [OF True nostar nocomma _ _ "1.prems"(3) rest] True "1.prems"(2) by simp
        with True nostar nocomma show ?thesis by (simp add: nmea_scan_loop.simps [of cb n])
      qed
    qed
  qed
qed

text \<open>
  Claim C4, as it is stated: for every completed sentence the running checksum computed
  during tokenization is the exclusive-or of the bytes between the start marker and the
  checksum separator with the field-separator bytes excluded. For a sentence with an odd
  number of separators it is not: the loop takes every separator into the checksum.
\<close>

theorem nmea_scan_cksum_excluding_separators_counterexample:
  "scanned_cksum (nmea_scan_loop rmc_14_fields 0 60 [0] 0) = Some 5
   \<and> cksum_without_separators rmc_14_fields 60 = 41
   \<and> scanned_cksum (nmea_scan_loop rmc_14_fields 0 60 [0] 0)
       \<noteq> Some (cksum_without_separators rmc_14_fields 60)"
  by code_simp

text \<open>
  Claim C4, amended: for every completed sentence of at most \<open>MAXFLDS\<close> (32) fields, that
  is with fewer than 32 field separators between the start marker and the checksum
  separator, the running checksum computed during tokenization is the exclusive-or of all
  bytes between the two, the field separators included, in the signed \<open>char\<close> it is
  computed with: the exclusive-or itself when every byte is below 128 (and whenever it is
  below 128), and 256 less otherwise. Tokenization of a sentence with more fields is
  abandoned: the loop ends without a checksum and the decoder returns with nothing but the
  receive buffer changed.
\<close>

theorem nmea_scan_cksum_includes_separators:
  "p \<le> length cb \<longrightarrow>
     (separators (sentence_body cb p) < MAXFLDS \<longrightarrow>
        scanned_cksum (nmea_scan_loop cb 0 p [0] 0)
          = Some (signed_char (xor_bytes (sentence_body cb p)))
        \<and> ((\<forall>c \<in> set (sentence_body cb p). (of_char c :: int) < 128) \<longrightarrow>
             scanned_cksum (nmea_scan_loop cb 0 p [0] 0) = Some (xor_bytes (sentence_body cb p))))
     \<and> (MAXFLDS \<le> separators (sentence_body cb p) \<longrightarrow>
          scanned_cksum (nmea_scan_loop cb 0 p [0] 0) = None
          \<and> (\<forall>np. cbuf np = cb \<and> pos np = p \<longrightarrow>
                (\<exists>cb'. nmea_scan atof np = Inr (np\<lparr>cbuf := cb'\<rparr>))))"
proof (intro impI conjI allI)
  assume p: "p \<le> length cb" and f: "separators (sentence_body cb p) < MAXFLDS"
  from scan_loop_ends [of 0 p cb "[0]" 0] p f
  obtain cb' fld ck' cs where l: "nmea_scan_loop cb 0 p [0] 0 = Fields cb' fld ck' cs"
    by (auto simp add: sentence_body_def separators_def)
  from scan_loop_cksum [OF _ p l] have "ck' = signed_char (xor_bytes (sentence_body cb p))"
    by (simp add: cksum_xor_bytes sentence_body_def)
  with l show s: "scanned_cksum (nmea_scan_loop cb 0 p [0] 0)
      = Some (signed_char (xor_bytes (sentence_body cb p)))"
    by (simp add: scanned_cksum_def)
  assume "\<forall>c \<in> set (sentence_body cb p). (of_char c :: int) < 128"
  from xor_bytes_ascii [OF this] s
  show "scanned_cksum (nmea_scan_loop cb 0 p [0] 0) = Some (xor_bytes (sentence_body cb p))"
    by simp
next
  assume p: "p \<le> length cb" and f: "MAXFLDS \<le> separators (sentence_body cb p)"
  from scan_loop_abandons [of 0 p cb "[0]" 0] p f
  obtain cb' where l: "nmea_scan_loop cb 0 p [0] 0 = Too_many_fields cb'"
    by (auto simp add: sentence_body_def MAXFLDS_def)
  then show "scanned_cksum (nmea_scan_loop cb 0 p [0] 0) = None"
    by (simp add: scanned_cksum_def)
  fix np :: nmea
  assume "cbuf np = cb \<and> pos np = p"
  with l have "nmea_scan atof np = Inr (np\<lparr>cbuf := cb'\<rparr>)" by (simp add: nmea_scan_def)
  then show "\<exists>cb'. nmea_scan atof np = Inr (np\<lparr>cbuf := cb'\<rparr>)" by blast
qed

text \<open>
  The sentence of fourteen fields: thirteen separators, all of them in the checksum. And
  a sentence of thirty-three fields, which is abandoned.
\<close>

theorem nmea_scan_cksum_includes_separators_witness:
  "60 \<le> length rmc_14_fields
   \<and> separators (sentence_body rmc_14_fields 60) = 13 \<and> 13 < MAXFLDS
   \<and> list_all (\<lambda>c. (of_char c :: int) < 128) (sentence_body rmc_14_fields 60)
   \<and> xor_bytes (sentence_body rmc_14_fields 60) = 5
   \<and> scanned_cksum (nmea_scan_loop rmc_14_fields 0 60 [0] 0) = Some 5
   \<and> pos rmc_33_fields \<le> length (cbuf rmc_33_fields)
   \<and> separators (sentence_body (cbuf rmc_33_fields) (pos rmc_33_fields)) = 32 \<and> MAXFLDS \<le> 32
   \<and> scanned_cksum (nmea_scan_loop (cbuf rmc_33_fields) 0 (pos rmc_33_fields) [0] 0) = None
   \<and> (\<exists>cb'. nmea_scan (\<lambda>s. 0) rmc_33_fields = Inr (rmc_33_fields\<lparr>cbuf := cb'\<rparr>))"
proof -
  have a: "60 \<le> length rmc_14_fields"
    "separators (sentence_body rmc_14_fields 60) = 13"
    "13 < MAXFLDS"
    "list_all (\<lambda>c. (of_char c :: int) < 128) (sentence_body rmc_14_fields 60)"
    "xor_bytes (sentence_body rmc_14_fields 60) = 5"
    by code_simp+
  from a(4) have a'': "\<forall>c \<in> set (sentence_body rmc_14_fields 60). (of_char c :: int) < 128"
    by (simp only: list_all_iff)
  have b: "pos rmc_33_fields \<le> length (cbuf rmc_33_fields)"
    "separators (sentence_body (cbuf rmc_33_fields) (pos rmc_33_fields)) = 32"
    "MAXFLDS \<le> 32"
    by code_simp+
  from a(2,3) have a': "separators (sentence_body rmc_14_fields 60) < MAXFLDS"
    by (simp only:)
  from b(2,3) have b': "MAXFLDS \<le> separators (sentence_body (cbuf rmc_33_fields) (pos rmc_33_fields))"
    by (simp only:)
  from nmea_scan_cksum_includes_separators [of 60 rmc_14_fields] a(1) a' a''
  have "scanned_cksum (nmea_scan_loop rmc_14_fields 0 60 [0] 0)
          = Some (xor_bytes (sentence_body rmc_14_fields 60))" by blast
  then have c: "scanned_cksum (nmea_scan_loop rmc_14_fields 0 60 [0] 0) = Some 5"
    by (simp only: a(5))
  from nmea_scan_cksum_includes_separators
    [of "pos rmc_33_fields" "cbuf rmc_33_fields" "\<lambda>s. 0"] b(1) b'
  have d: "scanned_cksum (nmea_scan_loop (cbuf rmc_33_fields) 0 (pos rmc_33_fields) [0] 0) = None"
    and e: "\<exists>cb'. nmea_scan (\<lambda>s. 0) rmc_33_fields = Inr (rmc_33_fields\<lparr>cbuf := cb'\<rparr>)"
    by blast+
  from a b c d e show ?thesis by blast
qed

subsection \<open>The checksum declared\<close>

lemma hex_digit_value:
  assumes "is_hex c"
  shows "0 \<le> (if is_digit c then cval c - cval CHR ''0'' else 10 + cval c - cval CHR ''A'')"
    and "(if is_digit c then cval c - cval CHR ''0'' else 10 + cval c - cval CHR ''A'') < 16"
proof -
  have k: "cval CHR ''0'' = 48" "cval CHR ''9'' = 57" "cval CHR ''A'' = 65" "cval CHR ''F'' = 70"
    by (simp_all add: cval_def)
  show "0 \<le> (if is_digit c then cval c - cval CHR ''0'' else 10 + cval c - cval CHR ''A'')"
    using assms unfolding is_hex_def is_digit_def k by auto
  show "(if is_digit c then cval c - cval CHR ''0'' else 10 + cval c - cval CHR ''A'') < 16"
    using assms unfolding is_hex_def is_digit_def k by auto
qed

text \<open>
  The loop over the checksum of the message reads a number in base 16, as long as the
  number fits the \<open>int\<close>: the digits read so far never denote more than all of them.
\<close>

lemma hex_foldl_grows:
  "\<forall>c \<in> set s. is_hex c \<Longrightarrow> 0 \<le> m \<Longrightarrow>
     m \<le> foldl (\<lambda>a c. 16 * a +
        (if is_digit c then cval c - cval CHR ''0'' else 10 + cval c - cval CHR ''A'')) m s"
proof (induction s arbitrary: m)
  case Nil
  show ?case by simp
next
  case (Cons c s)
  define d where "d = (if is_digit c then cval c - cval CHR ''0'' else 10 + cval c - cval CHR ''A'')"
  have hc: "is_hex c" using Cons.prems(1) by simp
  have d: "0 \<le> d" unfolding d_def using hex_digit_value [OF hc] by simp
  have n: "0 \<le> 16 * m + d" "m \<le> 16 * m + d" using d Cons.prems(2) by simp_all
  have "16 * m + d \<le> foldl (\<lambda>a c. 16 * a +
        (if is_digit c then cval c - cval CHR ''0'' else 10 + cval c - cval CHR ''A'')) (16 * m + d) s"
    using Cons.prems(1) by (intro Cons.IH n) simp
  with n(2) show ?case by (simp add: d_def)
qed

lemma nmea_msgcksum_foldl:
  "\<forall>c \<in> set s. is_hex c \<Longrightarrow> 0 \<le> m \<Longrightarrow>
   foldl (\<lambda>a c. 16 * a +
      (if is_digit c then cval c - cval CHR ''0'' else 10 + cval c - cval CHR ''A'')) m s < 2 ^ 31 \<Longrightarrow>
     nmea_msgcksum m s = Some (foldl (\<lambda>a c. 16 * a +
        (if is_digit c then cval c - cval CHR ''0'' else 10 + cval c - cval CHR ''A'')) m s)"
proof (induction s arbitrary: m)
  case Nil
  show ?case by simp
next
  case (Cons c s)
  define d where "d = (if is_digit c then cval c - cval CHR ''0'' else 10 + cval c - cval CHR ''A'')"
  have hc: "is_hex c" and hs: "\<forall>c \<in> set s. is_hex c" using Cons.prems(1) by simp_all
  have d: "0 \<le> d" "d < 16" unfolding d_def using hex_digit_value [OF hc] by simp_all
  have n: "0 \<le> 16 * m + d" "0 \<le> m * 16" using d Cons.prems(2) by simp_all
  have f: "foldl (\<lambda>a c. 16 * a +
        (if is_digit c then cval c - cval CHR ''0'' else 10 + cval c - cval CHR ''A'')) (16 * m + d) s
        < 2 ^ 31"
    using Cons.prems(3) by (simp add: d_def)
  from hex_foldl_grows [OF hs n(1)] f have b: "16 * m + d < 2 ^ 31" by simp
  then have s: "m * 16 < 2 ^ 31" using d by simp
  have m1: "(if m \<noteq> 0 then int32 (m * 16) else m) = 16 * m"
    using int32_small [OF n(2) s] by simp
  have step: "nmea_msgcksum m (c # s) = nmea_msgcksum (16 * m + d) s"
    using hc int32_small [OF n(1) b] m1
    by (auto simp add: is_hex_def d_def Let_def add.commute)
  have "nmea_msgcksum (16 * m + d) s = Some (foldl (\<lambda>a c. 16 * a +
        (if is_digit c then cval c - cval CHR ''0'' else 10 + cval c - cval CHR ''A'')) (16 * m + d) s)"
    by (intro Cons.IH hs n f)
  then show ?case unfolding step by (simp add: d_def)
qed

lemma nmea_msgcksum_hex_value:
  "\<forall>c \<in> set s. is_hex c \<Longrightarrow> hex_value s < 2 ^ 31 \<Longrightarrow> nmea_msgcksum 0 s = Some (hex_value s)"
  using nmea_msgcksum_foldl [of s 0] by (simp add: hex_value_def)

lemma hex_value_nonneg: "\<forall>c \<in> set s. is_hex c \<Longrightarrow> 0 \<le> hex_value s"
  using hex_foldl_grows [of s 0] by (simp add: hex_value_def)

lemma nmea_msgcksum_rejects: "\<not> (\<forall>c \<in> set s. is_hex c) \<Longrightarrow> nmea_msgcksum m s = None"
  by (induction s arbitrary: m) (auto simp add: is_hex_def Let_def)

lemma scan_loop_star:
  "n \<le> p \<Longrightarrow> p \<le> length cb \<Longrightarrow> CHR ''*'' \<in> set (drop n (take p cb)) \<Longrightarrow>
   nmea_scan_loop cb n p fld ck0 = Fields cb' fld' ck cs \<Longrightarrow>
     cs = Some (Suc (n + length (takeWhile (\<lambda>c. c \<noteq> CHR ''*'') (drop n (take p cb)))))
     \<and> drop (Suc (n + length (takeWhile (\<lambda>c. c \<noteq> CHR ''*'') (drop n (take p cb))))) cb'
       = drop (Suc (n + length (takeWhile (\<lambda>c. c \<noteq> CHR ''*'') (drop n (take p cb))))) cb"
proof (induction cb n p fld ck0 rule: nmea_scan_loop.induct)
  case (1 cb n p fld cksum)
  show ?case
  proof (cases "n < p")
    case False
    with "1.prems" show ?thesis by simp
  next
    case True
    then have d: "drop n (take p cb) = cb ! n # drop (Suc n) (take p cb)"
      using "1.prems"(2) Cons_nth_drop_Suc [of n "take p cb", symmetric] by simp
    have u: "drop (Suc n) (take p (cb[n := CHR 0x00])) = drop (Suc n) (take p cb)"
      by (simp add: take_update_swap)
    show ?thesis
    proof (cases "cb ! n = CHR ''*''")
      case star: True
      with True "1.prems"(4) show ?thesis by (auto simp add: nmea_scan_loop.simps [of cb n] d)
    next
      case nostar: False
      then have m: "CHR ''*'' \<in> set (drop (Suc n) (take p cb))"
        using "1.prems"(3) d by auto
      show ?thesis
      proof (cases "cb ! n = CHR '',''")
        case comma: True
        show ?thesis
        proof (cases "length fld < MAXFLDS")
          case room: True
          from True nostar comma room "1.prems"(4)
          have r: "nmea_scan_loop (cb[n := CHR 0x00]) (n + 1) p (fld @ [n + 1]) (cksum XOR cval (cb ! n))
                    = Fields cb' fld' ck cs"
            by (simp add: nmea_scan_loop.simps [of cb n])
          have "cs = Some (Suc (n + 1 + length (takeWhile (\<lambda>c. c \<noteq> CHR ''*'')
                      (drop (n + 1) (take p (cb[n := CHR 0x00]))))))
                \<and> drop (Suc (n + 1 + length (takeWhile (\<lambda>c. c \<noteq> CHR ''*'')
                      (drop (n + 1) (take p (cb[n := CHR 0x00])))))) cb'
                  = drop (Suc (n + 1 + length (takeWhile (\<lambda>c. c \<noteq> CHR ''*'')
                      (drop (n + 1) (take p (cb[n := CHR 0x00])))))) (cb[n := CHR 0x00])"
            using "1.IH"(1) [OF True nostar comma room _ _ _ r] True "1.prems"(2) m u by simp
          then show ?thesis using nostar u by (simp add: d)
        next
          case False
          with True nostar comma "1.prems"(4) show ?thesis
            by (simp add: nmea_scan_loop.simps [of cb n])
        qed
      next
        case nocomma: False
        from True nostar nocomma "1.prems"(4)
        have r: "nmea_scan_loop cb (n + 1) p fld (cksum XOR cval (cb ! n)) = Fields cb' fld' ck cs"
          by (simp add: nmea_scan_loop.simps [of cb n])
        have "cs = Some (Suc (n + 1 + length (takeWhile (\<lambda>c. c \<noteq> CHR ''*'') (drop (n + 1) (take p cb)))))
              \<and> drop (Suc (n + 1 + length (takeWhile (\<lambda>c. c \<noteq> CHR ''*'') (drop (n + 1) (take p cb))))) cb'
                = drop (Suc (n + 1 + length (takeWhile (\<lambda>c. c \<noteq> CHR ''*'') (drop (n + 1) (take p cb))))) cb"
          using "1.IH"(2) [OF True nostar nocomma _ _ _ r] True "1.prems"(2) m by simp
        then show ?thesis using nostar by (simp add: d)
      qed
    qed
  qed
qed

lemma declared_mismatch_scanned:
  assumes "declared_mismatch np"
    and "nmea_scan_loop (cbuf np) 0 (pos np) [0] 0 = Fields cb fld cksum cs"
  shows "\<exists>off. cs = Some off \<and> nmea_msgcksum 0 (c_str cb off) \<noteq> Some cksum"
proof -
  let ?d = "declared_checksum (cbuf np) (pos np)"
  let ?k = "length (sentence_body (cbuf np) (pos np))"
  let ?x = "xor_bytes (sentence_body (cbuf np) (pos np))"
  from assms(1) have p: "pos np \<le> length (cbuf np)"
    and s: "CHR ''*'' \<in> set (take (pos np) (cbuf np))"
    and m: "(\<exists>c \<in> set ?d. \<not> is_hex c) \<or> (hex_value ?d < 2 ^ 31 \<and> hex_value ?d \<noteq> ?x)"
    by (simp_all add: declared_mismatch_def)
  from scan_loop_star [of 0 "pos np" "cbuf np" "[0]" 0 cb fld cksum cs] p s assms(2)
  have cs: "cs = Some (Suc ?k)" and dr: "drop (Suc ?k) cb = drop (Suc ?k) (cbuf np)"
    by (simp_all add: sentence_body_def)
  have ck: "cksum = signed_char ?x"
    using scan_loop_cksum [OF _ p assms(2)] by (simp add: cksum_xor_bytes sentence_body_def)
  have d: "c_str cb (Suc ?k) = ?d"
    by (simp add: c_str_def declared_checksum_def dr)
  have "nmea_msgcksum 0 ?d \<noteq> Some cksum"
  proof (cases "\<forall>c \<in> set ?d. is_hex c")
    case True
    with m have v: "hex_value ?d < 2 ^ 31" "hex_value ?d \<noteq> ?x" by blast+
    have "hex_value ?d \<noteq> signed_char ?x"
      using v(2) hex_value_nonneg [OF True] xor_bytes_byte [of "sentence_body (cbuf np) (pos np)"]
      by (auto simp add: signed_char_def)
    then show ?thesis using nmea_msgcksum_hex_value [OF True v(1)] ck by simp
  next
    case False
    then show ?thesis using nmea_msgcksum_rejects [of ?d 0] by simp
  qed
  with cs d show ?thesis by simp
qed

text \<open>
  A sentence is discarded before any parsing when its declared checksum is no number in
  capital hexadecimal digits, or a number below \<open>2 ^ 31\<close> other than the exclusive-or of
  the body: \<open>nmea_scan\<close> returns with nothing but the receive buffer changed.
\<close>

lemma nmea_scan_declared_mismatch:
  assumes "declared_mismatch np"
  shows "\<exists>cb. nmea_scan atof np = Inr (np\<lparr>cbuf := cb\<rparr>) \<and> fix_state (np\<lparr>cbuf := cb\<rparr>) = fix_state np"
proof (cases "nmea_scan_loop (cbuf np) 0 (pos np) [0] 0")
  case (Too_many_fields cb)
  then have "nmea_scan atof np = Inr (np\<lparr>cbuf := cb\<rparr>)" by (simp add: nmea_scan_def)
  moreover have "fix_state (np\<lparr>cbuf := cb\<rparr>) = fix_state np" by (simp add: fix_state_def)
  ultimately show ?thesis by blast
next
  case (Fields cb fld cksum cs)
  from declared_mismatch_scanned [OF assms Fields] obtain off where cs: "cs = Some off"
    and m: "nmea_msgcksum 0 (c_str cb off) \<noteq> Some cksum"
    by blast
  have "nmea_scan atof np = Inr (np\<lparr>cbuf := cb\<rparr>)"
    using Fields cs m by (simp add: nmea_scan_def Let_def)
  moreover have "fix_state (np\<lparr>cbuf := cb\<rparr>) = fix_state np"
    by (simp add: fix_state_def)
  ultimately show ?thesis by blast
qed

lemma nmea_scan_declared_mismatch_example:
  "declared_mismatch rmc_wrong_cksum
   \<and> declared_checksum (cbuf rmc_wrong_cksum) (pos rmc_wrong_cksum) = ''7B''
   \<and> xor_bytes (sentence_body (cbuf rmc_wrong_cksum) (pos rmc_wrong_cksum)) = 122
   \<and> hex_value ''7B'' = 123
   \<and> fix_state (case nmea_scan (\<lambda>s. 0) rmc_wrong_cksum of Inr np \<Rightarrow> np) = fix_state rmc_wrong_cksum"
  by code_simp

text \<open>
  Claim C2 says that every completed sentence whose declared hexadecimal checksum does
  not equal the checksum computed over the sentence body is discarded before any parsing,
  the fix state unchanged. So it is for a declared checksum that an \<open>int\<close> can hold
  (\<open>nmea_scan_declared_mismatch\<close>). But the decoder reads the digits into an \<open>int\<close> of 32
  bits, shifting it by four bits for every digit, and compares what is left: of the
  declared checksum 10000007A, which is 4294967418, the \<open>int\<close> keeps 7A, the checksum of
  the body. The sentence is accepted and parsed, and it sets time, date, status, position
  and locator.
\<close>

theorem nmea_scan_long_checksum_accepted:
  "hex_value ''10000007A'' = 4294967418
   \<and> xor_bytes ''GPRMC,143723,A,4700.0000,N,00830.0000,E,0.5,0.0,021224,,,A'' = 122
   \<and> nmea_msgcksum 0 ''10000007A'' = Some 122
   \<and> (case nmea_handler (\<lambda>s. 0)
            (''$GPRMC,143723,A,4700.0000,N,00830.0000,E,0.5,0.0,021224,,,A*10000007A'' @ NL)
            nmea_start of
        Inl f \<Rightarrow> False
      | Inr np \<Rightarrow>
          fix_state np \<noteq> fix_state nmea_start
          \<and> tm np = \<lparr>tm_sec = 23, tm_min = 37, tm_hour = 14, tm_mday = 2, tm_mon = 12, tm_year = 124\<rparr>
          \<and> status np = 1 \<and> latitude np = 47 \<and> longitude np = 8.5 \<and> mode np = CHR ''A''
          \<and> c_str (locator np) 0 = ''JN47GA'')"
  by code_simp

subsection \<open>Malformed sentences\<close>

lemma nmea_time_never_fails: "fst (nmea_time mem s t) = 0"
  by (simp add: nmea_time_def)

lemma nmea_gprmc_field_count:
  "length fld < 12 \<or> 14 < length fld \<Longrightarrow> nmea_gprmc atof np fld = Inr np"
  by (simp add: nmea_gprmc_def)

lemma nmea_scan_field_count_locator:
  "(case nmea_handler (\<lambda>s. 0) (''$GPRMC,143723,A,4700.0000,N,00830.0000,E,0.5,0.0,021224'' @ NL)
          nmea_start of
      Inl f \<Rightarrow> False
    | Inr np \<Rightarrow>
        tm np = tm nmea_start \<and> status np = 0 \<and> latitude np = 0 \<and> longitude np = 0
        \<and> c_str (locator nmea_start) 0 = [] \<and> c_str (locator np) 0 = ''JJ00AA'')"
  by code_simp

lemma nmea_gprmc_illegal_date:
  "(case nmea_handler (\<lambda>s. 0)
          (''$GPRMC,143723,A,5230.0000,N,01320.0000,E,0.5,0.0,0212,,,A'' @ NL)
          (snd (nmea_locator fix_zurich)) of
      Inl f \<Rightarrow> False
    | Inr np \<Rightarrow>
        tm np = \<lparr>tm_sec = 23, tm_min = 37, tm_hour = 14, tm_mday = 0, tm_mon = 0, tm_year = 0\<rparr>
        \<and> status np = 0 \<and> latitude np = 47 \<and> longitude np = 8.5 \<and> mode np = CHR 0x00
        \<and> c_str (locator np) 0 = ''JN47GA'')"
  by code_simp

text \<open>
  Claim C6 says that a sentence with a bad field count, an illegal time field or an
  illegal date field is discarded without modifying the stored fix state. The field count
  is checked (\<open>nmea_gprmc_field_count\<close>; \<open>nmea_scan\<close> still computes the locator of the
  stored position afterwards, \<open>nmea_scan_field_count_locator\<close>), but \<open>nmea_time\<close> never
  reports an illegal time
  (\<open>nmea_time_never_fails\<close>), although its comment and its caller have it return \<open>-1\<close> at
  illegal characters, and it writes the time before the date is checked: a sentence with
  the date \<open>0212\<close> is discarded, but changes hour, minute and second of a decoder that has
  a fix (\<open>nmea_gprmc_illegal_date\<close>). Here a sentence whose time field is \<open>XXXXXX\<close> is
  decoded as a valid fix at 440:440:440.
\<close>

theorem nmea_gprmc_illegal_time_accepted:
  "(case nmea_handler (\<lambda>s. 0)
          (''$GPRMC,XXXXXX,A,4700.0000,N,00830.0000,E,0.5,0.0,021224,,,A'' @ NL) nmea_start of
      Inl f \<Rightarrow> False
    | Inr np \<Rightarrow>
        tm np = \<lparr>tm_sec = 440, tm_min = 440, tm_hour = 440, tm_mday = 2, tm_mon = 12, tm_year = 124\<rparr>
        \<and> status np = 1 \<and> latitude np = 47 \<and> longitude np = 8.5 \<and> mode np = CHR ''A''
        \<and> c_str (locator np) 0 = ''JN47GA'')"
  by code_simp
section \<open>Properties of the listener\<close>

subsection \<open>Handshake\<close>

text \<open>
  Once a request is in the buffer the negotiation has three outcomes: the acceptance, sent
  with \<open>send\<close>, and success; the 404 response and failure; the 400 response and failure.
  The answer is what \<open>wsGetHandshakeAnswer\<close> makes of the handshake that was parsed.
\<close>

lemma websocket_handshake_reply_outcomes:
  "(fst (wsParseHandshake lib received) = WS_OPENING_FRAME
      \<and> resource (snd (wsParseHandshake lib received)) = path \<longrightarrow>
      websocket_handshake_reply lib websock path received =
        (0, [check_handshake path,
             Printf (''got opening frame'' @ NL) [],
             Printf (''get handshake answer'' @ NL) [],
             Printf (''send reply of %d bytes'' @ NL)
               [Arg_d (int (length (wsGetHandshakeAnswer lib (snd (wsParseHandshake lib received)))))],
             Send (socket websock) (wsGetHandshakeAnswer lib (snd (wsParseHandshake lib received))),
             Printf (''sent reply'' @ NL) []]))
   \<and> (fst (wsParseHandshake lib received) = WS_OPENING_FRAME
      \<and> resource (snd (wsParseHandshake lib received)) \<noteq> path \<longrightarrow>
      websocket_handshake_reply lib websock path received =
        (- 1, [check_handshake path,
               Printf (''got opening frame'' @ NL) [],
               Printf (''404 not found'' @ NL) [],
               transmit websock (''HTTP/1.1 404 Not Found'' @ CRLF @ CRLF)]))
   \<and> (fst (wsParseHandshake lib received) \<noteq> WS_OPENING_FRAME \<longrightarrow>
      websocket_handshake_reply lib websock path received =
        (- 1, [check_handshake path,
               Printf (''400 bad request'' @ NL) [],
               transmit websock
                 (''HTTP/1.1 400 Bad Request'' @ CRLF @ versionField lib @ version lib @ CRLF @ CRLF)]))"
  by (simp add: websocket_handshake_reply_def check_handshake_def split_beta Let_def)

text \<open>
  A read that returns a number of bytes below the size of the buffer is followed by one of
  the three outcomes; every other read, a failed one among them, by the store outside the
  buffer.
\<close>

lemma websocket_handshake_read:
  "0 \<le> read_r \<Longrightarrow> read_r < BUFSIZE \<Longrightarrow>
     websocket_handshake lib websock path read_r data =
       Inr (websocket_handshake_reply lib websock path (take (nat read_r) data))"
  by (simp add: websocket_handshake_def size_t_def BUFSIZE_def)

lemma websocket_handshake_fault:
  assumes "- (2 ^ 63) \<le> read_r" "read_r < 2 ^ 63"
  shows "(websocket_handshake lib websock path read_r data = Inl Out_of_bounds_store)
           = (read_r < 0 \<or> BUFSIZE \<le> read_r)"
proof (cases "read_r < 0")
  case True
  then have "(read_r + 2 ^ 64) mod 2 ^ 64 = read_r + 2 ^ 64"
    using assms(1) by (intro mod_pos_pos_trivial) simp_all
  then have "read_r mod 2 ^ 64 = read_r + 2 ^ 64" by simp
  then show ?thesis using True assms(1) by (simp add: websocket_handshake_def size_t_def BUFSIZE_def)
next
  case False
  then have "read_r mod 2 ^ 64 = read_r" using assms(2) by simp
  then show ?thesis using False by (simp add: websocket_handshake_def size_t_def)
qed

lemma websocket_handshake_examples:
  "websocket_handshake example_lib example_sock ''/trx-control'' 25 ''GET /trx-control HTTP/1.1'' =
     Inr (0, [check_handshake ''/trx-control'',
              Printf (''got opening frame'' @ NL) [],
              Printf (''get handshake answer'' @ NL) [],
              Printf (''send reply of %d bytes'' @ NL) [Arg_d 129],
              Send 4 (''HTTP/1.1 101 Switching Protocols'' @ CRLF @ ''Upgrade: websocket'' @ CRLF
                 @ ''Connection: Upgrade'' @ CRLF
                 @ ''Sec-WebSocket-Accept: s3pPLMBiTxaQ9kYGzzhZRbK+xOo='' @ CRLF @ CRLF),
              Printf (''sent reply'' @ NL) []])"
  "websocket_handshake example_lib example_sock ''/trx-control'' 19 ''GET /other HTTP/1.1'' =
     Inr (- 1, [check_handshake ''/trx-control'',
                Printf (''got opening frame'' @ NL) [],
                Printf (''404 not found'' @ NL) [],
                Send 4 (''HTTP/1.1 404 Not Found'' @ CRLF @ CRLF)])"
  "websocket_handshake example_lib example_sock ''/trx-control'' 5 ''hello'' =
     Inr (- 1, [check_handshake ''/trx-control'',
                Printf (''400 bad request'' @ NL) [],
                Send 4 (''HTTP/1.1 400 Bad Request'' @ CRLF @ ''Sec-WebSocket-Version: 13''
                   @ CRLF @ CRLF)])"
  by code_simp+

text \<open>
  Claim C1 says that handshake negotiation has exactly three outcomes for every
  connection: the acceptance answer and success, the 404 response and failure, the 400
  response and failure. They are the outcomes of every request that is read with room to
  spare in the buffer (\<open>websocket_handshake_read\<close>, \<open>websocket_handshake_reply_outcomes\<close>).
  But what \<open>recv\<close> returns goes unchecked into \<open>size_t nread\<close>, and \<open>buf[nread] = '\0'\<close> is
  executed before the request is looked at. When the read fails (\<open>recv\<close> returns \<open>-1\<close>, and
  \<open>nread\<close> is the largest \<open>size_t\<close>) and when the bytes of the peer fill the buffer (\<open>recv\<close>
  returns \<open>BUFSIZE\<close>) the store is outside the \<open>BUFSIZE\<close> bytes allocated: the negotiation
  answers nothing and reports nothing. Here a failed read, a buffer filled, and a listener
  with one connection that its peer has reset.
\<close>

theorem websocket_handshake_unchecked_read:
  "websocket_handshake lib websock path (- 1) data = Inl Out_of_bounds_store
   \<and> websocket_handshake lib websock path 65535 data = Inl Out_of_bounds_store
   \<and> websocket_listener example_lib False example_t (Inr [good_candidate 3]) [reset_round]
       = (Faulted Out_of_bounds_store, [Select [3], Accept 3])"
proof -
  have "websocket_handshake lib websock path (- 1) data = Inl Out_of_bounds_store"
    by (simp add: websocket_handshake_def size_t_def BUFSIZE_def)
  moreover have "websocket_handshake lib websock path 65535 data = Inl Out_of_bounds_store"
    by (simp add: websocket_handshake_def size_t_def BUFSIZE_def)
  moreover have "websocket_listener example_lib False example_t (Inr [good_candidate 3]) [reset_round]
       = (Faulted Out_of_bounds_store, [Select [3], Accept 3])"
    by code_simp
  ultimately show ?thesis by (simp only: simp_thms)
qed

subsection \<open>Failed handshakes\<close>

lemma websocket_handshake_never_closes:
  "websocket_handshake lib w h read_r data = Inr (rv, evs) \<Longrightarrow> Close fd \<notin> set evs"
  by (auto simp add: websocket_handshake_def websocket_handshake_reply_def split_beta Let_def
      transmit_def split: option.splits if_splits)

lemma accept_each_never_closes: "Close fd \<notin> set (snd (accept_each lib lc t rnd fds))"
  by (induction fds)
    (auto simp add: Let_def emit_def dest: websocket_handshake_never_closes
      split: option.splits sum.splits)

text \<open>
  Claim C7 says that the listener closes an accepted connection whose handshake fails and
  spawns no handler thread for it. No thread is created, but the connection stays open:
  the loop over the listening sockets never calls \<open>close\<close> (\<open>accept_each_never_closes\<close>),
  and after a failed handshake it only frees the \<open>websocket_t\<close>. Here one connection asks
  for another path than the configured one.
\<close>

theorem websocket_listener_failed_handshake_left_open:
  "websocket_listener example_lib False example_t (Inr [good_candidate 3]) [wrong_path_round] =
     (Polling,
      [Select [3], Accept 3,
       check_handshake ''/trx-control'',
       Printf (''got opening frame'' @ NL) [],
       Printf (''404 not found'' @ NL) [],
       Send 4 (''HTTP/1.1 404 Not Found'' @ CRLF @ CRLF),
       Printf (''websocket-listener: handshake'' @ NL) [],
       Free \<lparr>socket = 4, ssl = None, ctx = None\<rparr>])
   \<and> Close 4 \<notin> set (snd (websocket_listener example_lib False example_t (Inr [good_candidate 3])
                            [wrong_path_round]))"
  by code_simp

subsection \<open>Startup\<close>

lemma listen_setup_no_exit: "Exit n \<notin> set (snd (listen_setup cands i fds))"
  by (induction cands arbitrary: i fds) (simp_all add: Let_def emit_def)

lemma websocket_handshake_no_exit:
  "websocket_handshake lib w h read_r data = Inr (rv, evs) \<Longrightarrow> Exit n \<notin> set evs"
  by (auto simp add: websocket_handshake_def websocket_handshake_reply_def split_beta Let_def
      transmit_def split: option.splits if_splits)

lemma accept_each_no_exit: "Exit n \<notin> set (snd (accept_each lib lc t rnd fds))"
  by (induction fds)
    (auto simp add: Let_def emit_def dest: websocket_handshake_no_exit
      split: option.splits sum.splits)

lemma accept_loop_no_exit:
  "fst (accept_loop lib lc t fds rounds) \<noteq> Exited
   \<and> Exit n \<notin> set (snd (accept_loop lib lc t fds rounds))"
proof (induction rounds)
  case Nil
  show ?case by simp
next
  case (Cons rnd rounds)
  obtain f evs where a: "accept_each lib lc t rnd fds = (f, evs)" by (cases "accept_each lib lc t rnd fds")
  have "Exit n \<notin> set evs" using accept_each_no_exit [of n lib lc t rnd fds] a by simp
  with Cons a show ?case by (cases f) (simp_all add: emit_def)
qed

text \<open>
  The candidates in the array: as long as fewer than \<open>MAXLISTEN\<close> of them set up, every
  candidate is tried, the events are those of the failures, and the sockets of the
  candidates that set up follow the \<open>i\<close> entries already taken.
\<close>

lemma listen_setup_skips:
  "i + length (filter sets_up cands) < MAXLISTEN \<Longrightarrow> length fds = MAXLISTEN \<Longrightarrow>
     snd (listen_setup cands i fds) = concat (map failure_events cands)
     \<and> take (i + length (filter sets_up cands)) (fst (listen_setup cands i fds))
         = take i fds @ map socket_r (filter sets_up cands)"
proof (induction cands arbitrary: i fds)
  case Nil
  show ?case by simp
next
  case (Cons res cands)
  have i: "i < MAXLISTEN" using Cons.prems(1) by simp
  have l: "length (fds[i := socket_r res]) = MAXLISTEN" using Cons.prems(2) by simp
  have t: "take i (fds[i := socket_r res]) = take i fds" by simp
  show ?case
  proof (cases "sets_up res")
    case True
    then have s: "listen_setup (res # cands) i fds = listen_setup cands (i + 1) (fds[i := socket_r res])"
      using i by (simp add: sets_up_def Let_def)
    have n: "i + 1 + length (filter sets_up cands) < MAXLISTEN" using Cons.prems(1) True by simp
    have "take (i + 1) (fds[i := socket_r res]) = take i fds @ [socket_r res]"
      using i Cons.prems(2) by (simp add: take_Suc_conv_app_nth)
    with Cons.IH [OF n l] True show ?thesis
      unfolding s by (simp add: failure_events_def)
  next
    case False
    then have s: "listen_setup (res # cands) i fds
        = emit (failure_events res) (listen_setup cands i (fds[i := socket_r res]))"
      using i by (auto simp add: sets_up_def failure_events_def Let_def emit_def)
    have n: "i + length (filter sets_up cands) < MAXLISTEN" using Cons.prems(1) False by simp
    from Cons.IH [OF n l] False t show ?thesis
      unfolding s by (simp add: emit_def)
  qed
qed

text \<open>
  Claim C8, as it is stated: if every candidate listening address fails to set up, the
  listener aborts startup rather than entering its accept loop. It does not: with two
  candidates for which \<open>socket\<close> fails the listener calls \<open>select\<close> on the empty set, round
  after round.
\<close>

theorem websocket_listener_all_candidates_fail_counterexample:
  "websocket_listener example_lib False example_t (Inr [no_socket, no_socket])
      [timeout_round, timeout_round]
     = (Polling, [Select [], Select []])"
  by code_simp

text \<open>
  Claim C8, amended: if the address cannot be resolved, the listener logs the error and
  exits the process. Otherwise it does not abort startup, also when every candidate
  listening address fails to set up: after the candidates it enters its accept loop and
  calls \<open>select\<close>, and it never exits the process. As long as fewer than \<open>MAXLISTEN\<close>
  candidates set up, every candidate is tried, and one that fails is skipped: nothing is
  logged when \<open>socket\<close> fails; when \<open>fcntl\<close>, \<open>setsockopt\<close>, \<open>bind\<close> or \<open>listen\<close> fails that
  failure is logged and the socket closed; the sockets of the candidates that set up are
  the first entries of \<open>listen_fd\<close>, in their order.
\<close>

theorem websocket_listener_enters_accept_loop:
  "websocket_listener lib lc t (Inl err) rounds =
     (Exited, [Syslog ''getaddrinfo: %s:%s: %s'' [Arg_s (bind_addr t), Arg_s (listen_port t), Arg_errno],
               Exit 1])
   \<and> ((\<forall>res \<in> set cands. \<not> sets_up res) \<longrightarrow>
        (\<exists>st fds evs.
           websocket_listener lib lc t (Inr cands) (rnd # rnds)
             = (st, concat (map failure_events cands) @ Select fds # evs)
           \<and> st \<noteq> Exited \<and> Exit n \<notin> set evs))
   \<and> (\<exists>st fds evs.
         websocket_listener lib lc t (Inr cands) (rnd # rnds)
           = (st, snd (listen_setup cands 0 (replicate MAXLISTEN (- 1))) @ Select fds # evs)
         \<and> st \<noteq> Exited \<and> Exit n \<notin> set evs)
   \<and> fst (websocket_listener lib lc t (Inr cands) rounds) \<noteq> Exited
   \<and> Exit n \<notin> set (snd (websocket_listener lib lc t (Inr cands) rounds))
   \<and> (length (filter sets_up cands) < MAXLISTEN \<longrightarrow>
        snd (listen_setup cands 0 (replicate MAXLISTEN (- 1))) = concat (map failure_events cands)
        \<and> take (length (filter sets_up cands)) (fst (listen_setup cands 0 (replicate MAXLISTEN (- 1))))
            = map socket_r (filter sets_up cands))"
proof -
  let ?tried = "listen_setup cands 0 (replicate MAXLISTEN (- 1))"
  let ?loop = "accept_loop lib lc t (fst ?tried) rnds"
  have r: "websocket_listener lib lc t (Inr cands) rs
             = emit (snd ?tried) (accept_loop lib lc t (fst ?tried) rs)" for rs
    by (simp add: websocket_listener_def split_beta)
  have a: "websocket_listener lib lc t (Inl err) rounds =
     (Exited, [Syslog ''getaddrinfo: %s:%s: %s'' [Arg_s (bind_addr t), Arg_s (listen_port t), Arg_errno],
               Exit 1])"
    by (simp add: websocket_listener_def)
  have d: "fst (websocket_listener lib lc t (Inr cands) rounds) \<noteq> Exited"
    using accept_loop_no_exit unfolding r by (simp add: emit_def)
  have e: "Exit n \<notin> set (snd (websocket_listener lib lc t (Inr cands) rounds))"
    using accept_loop_no_exit listen_setup_no_exit unfolding r by (simp add: emit_def)
  obtain st evs where l: "accept_loop lib lc t (fst ?tried) (rnd # rnds)
      = (st, Select (filter (\<lambda>fd. fd \<noteq> - 1) (fst ?tried)) # evs)"
    by (simp add: emit_def)
  have "st \<noteq> Exited" "Exit n \<notin> set evs"
    using accept_loop_no_exit [of lib lc t "fst ?tried" "rnd # rnds" n] unfolding l by simp_all
  then have c: "\<exists>st fds evs.
         websocket_listener lib lc t (Inr cands) (rnd # rnds) = (st, snd ?tried @ Select fds # evs)
         \<and> st \<noteq> Exited \<and> Exit n \<notin> set evs"
    unfolding r l by (simp add: emit_def)
  have f: "snd ?tried = concat (map failure_events cands)
        \<and> take (length (filter sets_up cands)) (fst ?tried) = map socket_r (filter sets_up cands)"
    if "length (filter sets_up cands) < MAXLISTEN"
    using listen_setup_skips [of 0 cands "replicate MAXLISTEN (- 1)"] that by simp
  have b: "\<exists>st fds evs.
           websocket_listener lib lc t (Inr cands) (rnd # rnds)
             = (st, concat (map failure_events cands) @ Select fds # evs)
           \<and> st \<noteq> Exited \<and> Exit n \<notin> set evs"
    if "\<forall>res \<in> set cands. \<not> sets_up res"
  proof -
    from that have "filter sets_up cands = []" by (simp add: filter_empty_conv)
    then have "length (filter sets_up cands) < MAXLISTEN" by (simp add: MAXLISTEN_def)
    from f [OF this] c show ?thesis by simp
  qed
  from a b c d e f show ?thesis by blast
qed

text \<open>
  Two candidates, no socket for the first and the address of the second in use: the
  failure of \<open>bind\<close> is logged, the socket closed, and \<open>select\<close> is called. And the exit when
  \<open>getaddrinfo\<close> fails.
\<close>

theorem websocket_listener_enters_accept_loop_witness:
  "\<not> sets_up no_socket \<and> \<not> sets_up (address_in_use 3)
   \<and> length (filter sets_up [no_socket, address_in_use 3]) < MAXLISTEN
   \<and> concat (map failure_events [no_socket, address_in_use 3])
       = [Syslog ''bind: %s'' [Arg_errno], Close 3]
   \<and> (\<exists>st fds evs.
        websocket_listener example_lib False example_t (Inr [no_socket, address_in_use 3])
           [timeout_round, timeout_round]
          = (st, [Syslog ''bind: %s'' [Arg_errno], Close 3] @ Select fds # evs)
        \<and> st \<noteq> Exited \<and> Exit 1 \<notin> set evs)
   \<and> snd (listen_setup [no_socket, address_in_use 3] 0 (replicate MAXLISTEN (- 1)))
       = [Syslog ''bind: %s'' [Arg_errno], Close 3]
   \<and> websocket_listener example_lib False example_t (Inl 2) [timeout_round] =
       (Exited, [Syslog ''getaddrinfo: %s:%s: %s'' [Arg_s ''localhost'', Arg_s ''14290'', Arg_errno],
                 Exit 1])"
proof -
  have h: "\<not> sets_up no_socket" "\<not> sets_up (address_in_use 3)"
    "length (filter sets_up [no_socket, address_in_use 3]) < MAXLISTEN"
    by code_simp+
  from h(1,2) have h': "\<forall>res \<in> set [no_socket, address_in_use 3]. \<not> sets_up res"
    by simp
  have v: "concat (map failure_events [no_socket, address_in_use 3])
       = [Syslog ''bind: %s'' [Arg_errno], Close 3]"
    by code_simp
  have t: "bind_addr example_t = ''localhost''" "listen_port example_t = ''14290''"
    by code_simp+
  note inst = websocket_listener_enters_accept_loop
    [of example_lib False example_t 2 "[timeout_round]" "[no_socket, address_in_use 3]"
        timeout_round "[timeout_round]" 1]
  from inst h' have 1: "\<exists>st fds evs.
        websocket_listener example_lib False example_t (Inr [no_socket, address_in_use 3])
           [timeout_round, timeout_round]
          = (st, concat (map failure_events [no_socket, address_in_use 3]) @ Select fds # evs)
        \<and> st \<noteq> Exited \<and> Exit 1 \<notin> set evs" by blast
  from inst h(3) have 2: "snd (listen_setup [no_socket, address_in_use 3] 0 (replicate MAXLISTEN (- 1)))
       = concat (map failure_events [no_socket, address_in_use 3])" by blast
  from inst have 3: "websocket_listener example_lib False example_t (Inl 2) [timeout_round] =
       (Exited, [Syslog ''getaddrinfo: %s:%s: %s''
                   [Arg_s (bind_addr example_t), Arg_s (listen_port example_t), Arg_errno],
                 Exit 1])" by blast
  from h v 1 2 3 show ?thesis unfolding t by (simp only: simp_thms)
qed

section \<open>Properties of the controller\<close>

lemma trx_control_slash:
  "CHR ''/'' \<in> set (trx_type controller) \<Longrightarrow>
     trx_control paths env controller =
       [Store_trx_control_running 1, Pthread_detach,
        Syslog ''trx-type must not contain slashes'' [], Store_trx_control_running 0]"
  by (simp add: trx_control_def)

lemma tty_setup_events:
  "Open_rdwr p \<notin> set (tty_setup env fd)" "Stat p \<notin> set (tty_setup env fd)"
  "LuaL_dofile p \<notin> set (tty_setup env fd)"
  by (simp_all add: tty_setup_def)

lemma trx_control_dofile:
  "LuaL_dofile p \<in> set (trx_control paths env controller) \<Longrightarrow>
     p = trx_driver_path paths controller \<or> p = PATH_INIT paths"
  by (auto simp add: trx_control_def Let_def tty_setup_events lua_failed_def trx_control_run_def
      split: if_splits sum.splits)

text \<open>
  Claim C10. For every driver name containing a slash the controller thread rejects the
  request and returns before it opens the device or touches the file system: it logs the
  error and does nothing else. So a run that opens the device, asks for a file or loads
  one has a name without a slash, and a file handed to the loader is the init script or
  the driver file, whose path is built from that name.
\<close>

theorem trx_control_rejects_slash:
  "(CHR ''/'' \<in> set (trx_type controller) \<longrightarrow>
      trx_control paths env controller =
        [Store_trx_control_running 1, Pthread_detach,
         Syslog ''trx-type must not contain slashes'' [], Store_trx_control_running 0])
   \<and> (Open_rdwr p \<in> set (trx_control paths env controller)
        \<or> Stat p \<in> set (trx_control paths env controller)
        \<or> LuaL_dofile p \<in> set (trx_control paths env controller) \<longrightarrow>
      CHR ''/'' \<notin> set (trx_type controller))
   \<and> (LuaL_dofile p \<in> set (trx_control paths env controller) \<longrightarrow>
      p = PATH_INIT paths
      \<or> p = take (PATH_MAX - 1) (PATH_TRX paths @ ''/'' @ trx_type controller @ ''.lua''))"
proof (intro conjI impI)
  assume "CHR ''/'' \<in> set (trx_type controller)"
  then show "trx_control paths env controller =
        [Store_trx_control_running 1, Pthread_detach,
         Syslog ''trx-type must not contain slashes'' [], Store_trx_control_running 0]"
    by (rule trx_control_slash)
next
  assume e: "Open_rdwr p \<in> set (trx_control paths env controller)
        \<or> Stat p \<in> set (trx_control paths env controller)
        \<or> LuaL_dofile p \<in> set (trx_control paths env controller)"
  show "CHR ''/'' \<notin> set (trx_type controller)"
  proof
    assume "CHR ''/'' \<in> set (trx_type controller)"
    from trx_control_slash [OF this, of paths env] e show False by simp
  qed
next
  assume "LuaL_dofile p \<in> set (trx_control paths env controller)"
  from trx_control_dofile [OF this]
  show "p = PATH_INIT paths
      \<or> p = take (PATH_MAX - 1) (PATH_TRX paths @ ''/'' @ trx_type controller @ ''.lua'')"
    by (auto simp: trx_driver_path_def)
qed

text \<open>
  A name that climbs out of the driver directory is rejected; the name \<open>simulated\<close> is
  loaded from the driver directory.
\<close>

theorem trx_control_rejects_slash_witness:
  "CHR ''/'' \<in> set (trx_type slash_controller)
   \<and> trx_control example_paths example_env slash_controller =
        [Store_trx_control_running 1, Pthread_detach,
         Syslog ''trx-type must not contain slashes'' [], Store_trx_control_running 0]
   \<and> LuaL_dofile ''/usr/share/trxd/trx/simulated.lua''
        \<in> set (trx_control example_paths example_env simulated_controller)
   \<and> CHR ''/'' \<notin> set (trx_type simulated_controller)
   \<and> ''/usr/share/trxd/trx/simulated.lua''
        = take (PATH_MAX - 1) (PATH_TRX example_paths @ ''/'' @ trx_type simulated_controller @ ''.lua'')"
proof -
  have a: "CHR ''/'' \<in> set (trx_type slash_controller)" by code_simp
  have b: "LuaL_dofile ''/usr/share/trxd/trx/simulated.lua''
        \<in> set (trx_control example_paths example_env simulated_controller)" by code_simp
  have c: "''/usr/share/trxd/trx/simulated.lua''
        = take (PATH_MAX - 1) (PATH_TRX example_paths @ ''/'' @ trx_type simulated_controller @ ''.lua'')"
    by code_simp
  from trx_control_rejects_slash [of slash_controller example_paths example_env "''x''"] a
  have d: "trx_control example_paths example_env slash_controller =
        [Store_trx_control_running 1, Pthread_detach,
         Syslog ''trx-type must not contain slashes'' [], Store_trx_control_running 0]" by blast
  from trx_control_rejects_slash
    [of simulated_controller example_paths example_env "''/usr/share/trxd/trx/simulated.lua''"] b
  have e: "CHR ''/'' \<notin> set (trx_type simulated_controller)" by blast
  from a b c d e show ?thesis by blast
qed

text \<open>
  Claim C5, as it is stated: when the device opens and a driver descriptor matching the
  name exists and loads without error, load invokes that descriptor's initialize
  operation, and it fails if initialize raises an error. It does not: the thread runs the
  driver file and never uses the table the file returns. With a driver whose \<open>initialize\<close>
  raises an error the thread starts, sleeps and terminates, and logs no error.
\<close>

theorem trx_control_initialize_counterexample:
  "initialize failing_driver = Inl ''initialize: no answer from the transceiver''
   \<and> open_r example_env (device simulated_controller) = 5
   \<and> luaL_dofile_r example_env (trx_driver_path example_paths simulated_controller)
       = Inr (Some failing_driver)
   \<and> trx_control example_paths example_env simulated_controller =
       [Store_trx_control_running 1, Pthread_detach, Open_rdwr ''/dev/ttyUSB0'', Tcsetattr_raw 5,
        Stat ''/usr/share/trxd/trx/simulated.lua'', LuaL_dofile ''/usr/share/trxd/trx/simulated.lua'',
        Stat ''/etc/trxd.lua'',
        Printf (''trx_control started'' @ NL) [], Sleep 10, Printf (''trx_control terminates'' @ NL) [],
        Lua_close, Store_trx_control_running 0]"
  by code_simp

text \<open>
  Claim C5, amended: for every load call with a driver name without a slash in which the
  device opens and the driver file for the name exists: if no Lua state can be created,
  load fails before it looks for the driver file. Otherwise it runs the driver file and,
  when that ends without error, the init script if there is one. If nothing raises an
  error the thread reports that it started, sleeps and terminates, whatever table the
  driver file returned and whatever its initialize operation would do: the operation is
  not invoked. Load fails, logging the Lua error, exactly when running the driver file or
  the init script raises one.
\<close>

theorem trx_control_loads_without_initialize:
  "CHR ''/'' \<notin> set (trx_type controller) \<and> open_r env (device controller) \<noteq> - 1
      \<and> stat_r env (trx_driver_path paths controller) = 0 \<longrightarrow>
      (luaL_newstate_null env \<longrightarrow>
         trx_control paths env controller =
           trx_control_opening env controller
           @ [Syslog ''cannot initialize Lua state'' [], Store_trx_control_running 0])
      \<and> (\<not> luaL_newstate_null env \<longrightarrow>
         (\<forall>v. luaL_dofile_r env (trx_driver_path paths controller) = Inr v
                \<and> stat_r env (PATH_INIT paths) \<noteq> 0 \<longrightarrow>
              trx_control paths env controller =
                trx_control_loading paths env controller @ [Stat (PATH_INIT paths)] @ trx_control_run)
         \<and> (\<forall>v v'. luaL_dofile_r env (trx_driver_path paths controller) = Inr v
                \<and> stat_r env (PATH_INIT paths) = 0 \<and> luaL_dofile_r env (PATH_INIT paths) = Inr v' \<longrightarrow>
              trx_control paths env controller =
                trx_control_loading paths env controller
                @ [Stat (PATH_INIT paths), LuaL_dofile (PATH_INIT paths)] @ trx_control_run)
         \<and> (\<forall>v msg. luaL_dofile_r env (trx_driver_path paths controller) = Inr v
                \<and> stat_r env (PATH_INIT paths) = 0 \<and> luaL_dofile_r env (PATH_INIT paths) = Inl msg \<longrightarrow>
              trx_control paths env controller =
                trx_control_loading paths env controller
                @ [Stat (PATH_INIT paths), LuaL_dofile (PATH_INIT paths),
                   Syslog ''Lua error: %s'' [Arg_s msg], Store_trx_control_running 0, Lua_close])
         \<and> (\<forall>msg. luaL_dofile_r env (trx_driver_path paths controller) = Inl msg \<longrightarrow>
              trx_control paths env controller =
                trx_control_loading paths env controller
                @ [Syslog ''Lua error: %s'' [Arg_s msg], Store_trx_control_running 0, Lua_close]))"
  by (simp add: trx_control_def trx_control_loading_def trx_control_opening_def Let_def lua_failed_def)

text \<open>
  The driver \<open>simulated\<close> of the example, whose \<open>initialize\<close> raises an error, is loaded and
  the thread runs to its end; without a Lua state the thread stops after the device.
\<close>

theorem trx_control_loads_without_initialize_witness:
  "CHR ''/'' \<notin> set (trx_type simulated_controller)
   \<and> open_r example_env (device simulated_controller) \<noteq> - 1
   \<and> \<not> luaL_newstate_null example_env
   \<and> stat_r example_env (trx_driver_path example_paths simulated_controller) = 0
   \<and> luaL_dofile_r example_env (trx_driver_path example_paths simulated_controller)
       = Inr (Some failing_driver)
   \<and> stat_r example_env (PATH_INIT example_paths) \<noteq> 0
   \<and> trx_control_loading example_paths example_env simulated_controller =
       [Store_trx_control_running 1, Pthread_detach, Open_rdwr ''/dev/ttyUSB0'', Tcsetattr_raw 5,
        Stat ''/usr/share/trxd/trx/simulated.lua'', LuaL_dofile ''/usr/share/trxd/trx/simulated.lua'']
   \<and> trx_control example_paths example_env simulated_controller =
       trx_control_loading example_paths example_env simulated_controller
       @ [Stat ''/etc/trxd.lua''] @ trx_control_run
   \<and> luaL_newstate_null (example_env\<lparr>luaL_newstate_null := True\<rparr>)
   \<and> trx_control example_paths (example_env\<lparr>luaL_newstate_null := True\<rparr>) simulated_controller =
       [Store_trx_control_running 1, Pthread_detach, Open_rdwr ''/dev/ttyUSB0'', Tcsetattr_raw 5,
        Syslog ''cannot initialize Lua state'' [], Store_trx_control_running 0]"
proof -
  let ?env = "example_env\<lparr>luaL_newstate_null := True\<rparr>"
  have h: "CHR ''/'' \<notin> set (trx_type simulated_controller)"
    "open_r example_env (device simulated_controller) \<noteq> - 1"
    "\<not> luaL_newstate_null example_env"
    "stat_r example_env (trx_driver_path example_paths simulated_controller) = 0"
    "luaL_dofile_r example_env (trx_driver_path example_paths simulated_controller)
       = Inr (Some failing_driver)"
    "stat_r example_env (PATH_INIT example_paths) \<noteq> 0"
    by code_simp+
  have n: "open_r ?env (device simulated_controller) \<noteq> - 1"
    "stat_r ?env (trx_driver_path example_paths simulated_controller) = 0"
    "luaL_newstate_null ?env"
    by code_simp+
  have p: "PATH_INIT example_paths = ''/etc/trxd.lua''"
    "trx_control_loading example_paths example_env simulated_controller =
       [Store_trx_control_running 1, Pthread_detach, Open_rdwr ''/dev/ttyUSB0'', Tcsetattr_raw 5,
        Stat ''/usr/share/trxd/trx/simulated.lua'', LuaL_dofile ''/usr/share/trxd/trx/simulated.lua'']"
    "trx_control_opening ?env simulated_controller @
       [Syslog ''cannot initialize Lua state'' [], Store_trx_control_running 0] =
       [Store_trx_control_running 1, Pthread_detach, Open_rdwr ''/dev/ttyUSB0'', Tcsetattr_raw 5,
        Syslog ''cannot initialize Lua state'' [], Store_trx_control_running 0]"
    by code_simp+
  from h
  have "trx_control example_paths example_env simulated_controller =
          trx_control_loading example_paths example_env simulated_controller
          @ [Stat (PATH_INIT example_paths)] @ trx_control_run"
    using trx_control_loads_without_initialize [of simulated_controller example_env example_paths]
    by blast
  then have a: "trx_control example_paths example_env simulated_controller =
          trx_control_loading example_paths example_env simulated_controller
          @ [Stat ''/etc/trxd.lua''] @ trx_control_run"
    by (simp only: p(1))
  from h(1) n
  have "trx_control example_paths ?env simulated_controller =
          trx_control_opening ?env simulated_controller
          @ [Syslog ''cannot initialize Lua state'' [], Store_trx_control_running 0]"
    using trx_control_loads_without_initialize [of simulated_controller ?env example_paths]
    by blast
  then have b: "trx_control example_paths ?env simulated_controller =
       [Store_trx_control_running 1, Pthread_detach, Open_rdwr ''/dev/ttyUSB0'', Tcsetattr_raw 5,
        Syslog ''cannot initialize Lua state'' [], Store_trx_control_running 0]"
    by (simp only: p(3))
  from h p(2) a n(3) b show ?thesis by blast
qed

end
